theory Spec2Isabelle
  imports Main "HOL-Library.Word" "HOL-Library.Sublist" "HOL-Library.Multiset"
begin

section \<open>Data model of \<^verbatim>\<open>RNAMotif.cpp\<close>\<close>

text \<open>
  \<^verbatim>\<open>struct AppOptions\<close>: the command-line options the per-family loop reads.
\<close>

record AppOptions =
  verbosity :: int
  constrain :: bool
  pseudoknot :: bool

text \<open>
  \<^verbatim>\<open>seqan::StockholmRecord<seqan::Rna>\<close>, as \<^verbatim>\<open>main\<close> uses it (the declaration is in
  \<^verbatim>\<open>stockholm_file.h\<close>): \<^verbatim>\<open>header\<close> and \<^verbatim>\<open>seqence_information\<close> are read with
  \<^verbatim>\<open>.at(key)\<close>, so they are maps; \<^verbatim>\<open>seqences\<close> is read with \<^verbatim>\<open>.begin()\<close>, \<^verbatim>\<open>.size()\<close> and
  a range-for, so it is the list of its (name, sequence) entries in the container's
  iteration order. The field names are the source's.
\<close>

record StockholmRecord =
  header :: "string \<rightharpoonup> string"
  seqence_information :: "string \<rightharpoonup> string"
  seqences :: "(string \<times> string) list"
  alignment :: "string list"

text \<open>
  Modelled from the spec: the element types of \<^verbatim>\<open>Motif\<close> (\<^verbatim>\<open>motif.h\<close> is missing). A Base
  Pair is an ordered pair of column indices, an Interaction Graph and a Pair List are
  lists of Base Pairs, a Structural Element is a kind (a stem or one of the loops) with
  its column ranges (first and last column of each), and a Motif Profile is a list of
  elements. A default-constructed value of each list is the empty list.
\<close>

type_synonym BasePair = "nat \<times> nat"

type_synonym InteractionGraph = "BasePair list"

type_synonym PairList = "BasePair list"

datatype element_kind = Stem | HairpinLoop | MultiBranchJunction | OtherLoop

type_synonym StructuralElement = "element_kind \<times> (nat \<times> nat) list"

type_synonym MotifProfile = "StructuralElement list"

text \<open>
  \<^verbatim>\<open>Motif\<close>: the fields \<^verbatim>\<open>main\<close> assigns, and \<^verbatim>\<open>profiles\<close> for what
  \<^verbatim>\<open>structurePartition\<close> leaves in the motif. The source's field \<^verbatim>\<open>header\<close> is
  \<open>m_header\<close> here, the name \<open>header\<close> being the record's above.
\<close>

record Motif =
  m_header :: "string \<rightharpoonup> string"
  seedAlignment :: "string list"
  interactionGraphs :: "InteractionGraph list"
  interactionPairs :: "PairList list"
  consensusStructure :: "BasePair list"
  profiles :: "MotifProfile list"

text \<open>
  \<^verbatim>\<open>Motif()\<close>: what \<^verbatim>\<open>std::vector<Motif> motifs(records.size())\<close> fills the result
  collection with, and what \<^verbatim>\<open>Motif rna_motif;\<close> starts from.
\<close>

definition default_Motif :: Motif where
  "default_Motif =
     \<lparr>m_header = Map.empty, seedAlignment = [], interactionGraphs = [],
      interactionPairs = [], consensusStructure = [], profiles = []\<rparr>"

text \<open>The two tags that select a folding backend.\<close>

datatype fold_tag = IPknotFold | RNALibFold

text \<open>
  What can end an iteration early. \<^verbatim>\<open>OutOfRange\<close> is the \<^verbatim>\<open>std::out_of_range\<close> of
  \<^verbatim>\<open>.at(key)\<close> on a missing key; \<^verbatim>\<open>BeginOfEmpty\<close> stands for dereferencing \<^verbatim>\<open>begin()\<close> of
  an empty \<^verbatim>\<open>seqences\<close> (undefined behaviour in the source); the others are the
  exceptions that the stages defined outside \<^verbatim>\<open>RNAMotif.cpp\<close> may throw.
\<close>

datatype error =
    OutOfRange
  | BeginOfEmpty
  | FormatError
  | ConstraintUnsatisfiable
  | PartitionInvariantViolation
  | OtherError string

text \<open>
  The functions \<^verbatim>\<open>main\<close> calls that live in \<^verbatim>\<open>RNAlib_utils.h\<close>, \<^verbatim>\<open>IPknot_utils.h\<close> and
  \<^verbatim>\<open>motif.h\<close>, taken as parameters. Each may throw. \<^verbatim>\<open>getConsensusStructure\<close> receives
  the record, the motif's current consensus structure (its output parameter), the
  constraint (\<^verbatim>\<open>NULL\<close> is \<open>None\<close>) and the tag; \<^verbatim>\<open>structurePartition\<close> updates the motif.
  \<^verbatim>\<open>debug_enabled\<close> says whether the macro \<^verbatim>\<open>DEBUG_MSG\<close> evaluates its argument.
\<close>

record externals =
  WUSStoPseudoBracket :: "string \<Rightarrow> error + string"
  getConsensusStructure ::
    "StockholmRecord \<Rightarrow> BasePair list \<Rightarrow> string option \<Rightarrow> fold_tag \<Rightarrow> error + BasePair list"
  structurePartition :: "Motif \<Rightarrow> error + Motif"
  debug_enabled :: bool

text \<open>
  What the program prints, and which outside stage it calls, in order.
  \<open>Call_createInteractions\<close> is the call on line 289 (with the sequence it would be given),
  which the source has commented out.
\<close>

datatype event =
    PrintHeader string string
  | PrintSkipping int
  | DebugMsg string
  | PrintEndl
  | Call_WUSStoPseudoBracket string
  | Call_createInteractions string
  | Call_getConsensusStructure fold_tag
  | Call_structurePartition

section \<open>The per-family loop body\<close>

text \<open>\<^verbatim>\<open>m.at(k)\<close>: the value, or \<^verbatim>\<open>std::out_of_range\<close>.\<close>

definition map_at :: "(string \<rightharpoonup> string) \<Rightarrow> string \<Rightarrow> error + string" where
  "map_at m k = (case m k of None \<Rightarrow> Inl OutOfRange | Some v \<Rightarrow> Inr v)"

text \<open>
  \<^verbatim>\<open>int seq_len = record.seqences.begin()->second.length();\<close> the length of the first
  entry's sequence, converted from \<^verbatim>\<open>size_t\<close> to a 32-bit \<^verbatim>\<open>int\<close>.
\<close>

definition seq_len_of :: "string \<Rightarrow> int" where
  "seq_len_of s = sint (word_of_nat (length s) :: 32 word)"

text \<open>
  Lines 272-276: the constraint is \<^verbatim>\<open>NULL\<close> unless \<^verbatim>\<open>options.constrain\<close>; then the
  annotation \<^verbatim>\<open>SS_cons\<close> is looked up and translated.
\<close>

definition constraint_stage ::
  "externals \<Rightarrow> AppOptions \<Rightarrow> StockholmRecord \<Rightarrow> event list \<times> (error + string option)" where
  "constraint_stage ext options record =
     (if constrain options then
        (case map_at (seqence_information record) ''SS_cons'' of
           Inl e \<Rightarrow> ([], Inl e)
         | Inr ss \<Rightarrow>
             (case WUSStoPseudoBracket ext ss of
                Inl e \<Rightarrow> ([Call_WUSStoPseudoBracket ss], Inl e)
              | Inr c \<Rightarrow> ([Call_WUSStoPseudoBracket ss], Inr (Some c))))
      else ([], Inr None))"

text \<open>
  Lines 279-283: a fresh motif with the header and the alignment copied and the two
  per-sequence vectors resized to the number of sequences.
\<close>

definition init_motif :: "StockholmRecord \<Rightarrow> Motif" where
  "init_motif record =
     default_Motif
       \<lparr>m_header := header record,
        seedAlignment := alignment record,
        interactionGraphs := replicate (length (seqences record)) [],
        interactionPairs := replicate (length (seqences record)) []\<rparr>"

text \<open>
  Lines 286-291: the loop over the sequences. The call of \<^verbatim>\<open>createInteractions\<close> is
  commented out in the source, so an iteration only increments \<^verbatim>\<open>i\<close>.
\<close>

fun interaction_loop :: "(string \<times> string) list \<Rightarrow> int \<Rightarrow> Motif \<Rightarrow> int \<times> Motif" where
  "interaction_loop [] i rna_motif = (i, rna_motif)"
| "interaction_loop (elem # rest) i rna_motif = interaction_loop rest (i + 1) rna_motif"

text \<open>Line 294: \<^verbatim>\<open>DEBUG_MSG\<close> reads \<^verbatim>\<open>SS_cons\<close> when the macro evaluates its argument.\<close>

definition debug_stage :: "externals \<Rightarrow> StockholmRecord \<Rightarrow> event list \<times> (error + unit)" where
  "debug_stage ext record =
     (if debug_enabled ext then
        (case map_at (seqence_information record) ''SS_cons'' of
           Inl e \<Rightarrow> ([], Inl e)
         | Inr ss \<Rightarrow> ([DebugMsg ss], Inr ()))
      else ([], Inr ()))"

text \<open>Lines 295-298: the backend is chosen by \<^verbatim>\<open>options.pseudoknot\<close>.\<close>

definition fold_tag_of :: "AppOptions \<Rightarrow> fold_tag" where
  "fold_tag_of options = (if pseudoknot options then IPknotFold else RNALibFold)"

definition consensus_stage ::
  "externals \<Rightarrow> AppOptions \<Rightarrow> StockholmRecord \<Rightarrow> string option \<Rightarrow> Motif
     \<Rightarrow> event list \<times> (error + Motif)" where
  "consensus_stage ext options record constraint_bracket rna_motif =
     (if pseudoknot options then
        (case getConsensusStructure ext record (consensusStructure rna_motif)
                constraint_bracket IPknotFold of
           Inl e \<Rightarrow> ([Call_getConsensusStructure IPknotFold], Inl e)
         | Inr cs \<Rightarrow>
             ([Call_getConsensusStructure IPknotFold], Inr (rna_motif\<lparr>consensusStructure := cs\<rparr>)))
      else
        (case getConsensusStructure ext record (consensusStructure rna_motif)
                constraint_bracket RNALibFold of
           Inl e \<Rightarrow> ([Call_getConsensusStructure RNALibFold], Inl e)
         | Inr cs \<Rightarrow>
             ([Call_getConsensusStructure RNALibFold], Inr (rna_motif\<lparr>consensusStructure := cs\<rparr>))))"

text \<open>Line 300.\<close>

definition partition_stage :: "externals \<Rightarrow> Motif \<Rightarrow> event list \<times> (error + Motif)" where
  "partition_stage ext rna_motif =
     ([Call_structurePartition], structurePartition ext rna_motif)"

text \<open>
  Lines 271-300: everything an iteration does after the length check and before it
  stores the motif. The events of a stage that throws are kept.
\<close>

definition assemble ::
  "externals \<Rightarrow> AppOptions \<Rightarrow> StockholmRecord \<Rightarrow> event list \<times> (error + Motif)" where
  "assemble ext options record =
     (case constraint_stage ext options record of
        (ev1, Inl e) \<Rightarrow> (ev1, Inl e)
      | (ev1, Inr constraint_bracket) \<Rightarrow>
          (let rna_motif = snd (interaction_loop (seqences record) 0 (init_motif record)) in
           case debug_stage ext record of
             (ev2, Inl e) \<Rightarrow> (ev1 @ ev2, Inl e)
           | (ev2, Inr _) \<Rightarrow>
               (case consensus_stage ext options record constraint_bracket rna_motif of
                  (ev3, Inl e) \<Rightarrow> (ev1 @ ev2 @ ev3, Inl e)
                | (ev3, Inr rna_motif') \<Rightarrow>
                    (case partition_stage ext rna_motif' of
                       (ev4, Inl e) \<Rightarrow> (ev1 @ ev2 @ ev3 @ ev4, Inl e)
                     | (ev4, Inr rna_motif'') \<Rightarrow>
                         (ev1 @ ev2 @ ev3 @ ev4, Inr rna_motif'')))))"

text \<open>
  Lines 260-302, without the store: the header line, the length check on the first
  sequence (\<open>Inr None\<close> is the \<^verbatim>\<open>continue\<close>), then the assembly. The events are whole
  lines: a header line whose lookup throws is not among them.
\<close>

definition loop_body ::
  "externals \<Rightarrow> AppOptions \<Rightarrow> StockholmRecord \<Rightarrow> event list \<times> (error + Motif option)" where
  "loop_body ext options record =
     (case map_at (header record) ''AC'' of
        Inl e \<Rightarrow> ([], Inl e)
      | Inr ac \<Rightarrow>
          (case map_at (header record) ''ID'' of
             Inl e \<Rightarrow> ([], Inl e)
           | Inr ident \<Rightarrow>
               (case seqences record of
                  [] \<Rightarrow> ([PrintHeader ac ident], Inl BeginOfEmpty)
                | first # _ \<Rightarrow>
                    (let seq_len = seq_len_of (snd first) in
                     if seq_len > 1000 then
                       ([PrintHeader ac ident, PrintSkipping seq_len], Inr None)
                     else
                       (case assemble ext options record of
                          (ev, Inl e) \<Rightarrow> (PrintHeader ac ident # ev, Inl e)
                        | (ev, Inr rna_motif) \<Rightarrow>
                            (PrintHeader ac ident # ev, Inr (Some rna_motif)))))))"

section \<open>The loop over the families\<close>

text \<open>
  The state the iterations share: the result collection \<^verbatim>\<open>motifs\<close> and the standard
  output.
\<close>

record batch_state =
  motifs :: "Motif list"
  out :: "event list"

text \<open>
  Iteration \<open>k\<close>: run the body on \<^verbatim>\<open>records[k]\<close>; a \<^verbatim>\<open>continue\<close> stores nothing, a finished
  motif is stored by \<^verbatim>\<open>motifs[k] = rna_motif\<close>. Nothing in \<^verbatim>\<open>main\<close> catches an exception, so
  one ends the run.
\<close>

definition loop_iteration ::
  "externals \<Rightarrow> AppOptions \<Rightarrow> StockholmRecord list \<Rightarrow> nat \<Rightarrow> batch_state
     \<Rightarrow> error + batch_state" where
  "loop_iteration ext options records k st =
     (case loop_body ext options (records ! k) of
        (ev, Inl e) \<Rightarrow> Inl e
      | (ev, Inr None) \<Rightarrow> Inr (st\<lparr>out := out st @ ev\<rparr>)
      | (ev, Inr (Some rna_motif)) \<Rightarrow>
          Inr (st\<lparr>motifs := (motifs st)[k := rna_motif], out := out st @ ev\<rparr>))"

text \<open>
  The iterations of \<^verbatim>\<open>#pragma omp parallel for\<close> run in some order; \<open>run_schedule\<close> runs
  them in the order of the list of indices it is given.
\<close>

fun run_schedule ::
  "externals \<Rightarrow> AppOptions \<Rightarrow> StockholmRecord list \<Rightarrow> nat list \<Rightarrow> batch_state
     \<Rightarrow> error + batch_state" where
  "run_schedule ext options records [] st = Inr st"
| "run_schedule ext options records (k # ks) st =
     (case loop_iteration ext options records k st of
        Inl e \<Rightarrow> Inl e
      | Inr st' \<Rightarrow> run_schedule ext options records ks st')"

text \<open>
  Line 252: the result collection is created with one default motif per record.
\<close>

definition initial_state :: "StockholmRecord list \<Rightarrow> batch_state" where
  "initial_state records =
     \<lparr>motifs = replicate (length records) default_Motif, out = []\<rparr>"

text \<open>
  Lines 252-306 in the order \<open>k = 0, 1, ...\<close> of the \<^verbatim>\<open>for\<close> statement.
\<close>

definition main_loop ::
  "externals \<Rightarrow> AppOptions \<Rightarrow> StockholmRecord list \<Rightarrow> error + batch_state" where
  "main_loop ext options records =
     run_schedule ext options records [0..<length records] (initial_state records)"

text \<open>Lines 308-310: after the loop the program prints a newline and returns.\<close>

definition main_run ::
  "externals \<Rightarrow> AppOptions \<Rightarrow> StockholmRecord list \<Rightarrow> error + batch_state" where
  "main_run ext options records =
     (case main_loop ext options records of
        Inl e \<Rightarrow> Inl e
      | Inr st \<Rightarrow> Inr (st\<lparr>out := out st @ [PrintEndl]\<rparr>))"

text \<open>
  What an iteration leaves at its index of the result collection when the run
  completes: the assembled motif, or the default motif the collection was created with.
\<close>

definition family_result :: "externals \<Rightarrow> AppOptions \<Rightarrow> StockholmRecord \<Rightarrow> Motif" where
  "family_result ext options record =
     (case snd (loop_body ext options record) of
        Inr (Some rna_motif) \<Rightarrow> rna_motif
      | _ \<Rightarrow> default_Motif)"

section \<open>The batch script\<close>

text \<open>
  The value of the shell variable \<^verbatim>\<open>number\<close>: not set, a text inherited from the script's
  environment, or a 64-bit shell integer that \<^verbatim>\<open>((number++))\<close> has stored.
\<close>

datatype shell_value = Unset | Inherited string | Counted "64 word"

text \<open>
  The lines the script's \<^verbatim>\<open>echo\<close> statements print. The closing line shows the
  variable as it is: nothing when it is not set, the inherited text when it was never
  incremented.
\<close>

datatype script_line =
    MoveFiles
  | GetsProcessed string
  | NoInfernalFile
  | FamiliesProcessed shell_value

record script_state =
  number :: shell_value
  echoed :: "script_line list"

text \<open>\<^verbatim>\<open>${full##*/}\<close>: what follows the last slash.\<close>

definition strip_dirs :: "string \<Rightarrow> string" where
  "strip_dirs full = rev (takeWhile (\<lambda>c. c \<noteq> CHR ''/'') (rev full))"

text \<open>
  \<^verbatim>\<open>((number++))\<close>: a variable that is not set counts as 0; an inherited text is evaluated
  by the shell's arithmetic, the parameter \<open>arith\<close>, and when that is an error the variable
  stays as it is; the sum wraps at 64 bits.
\<close>

definition increment :: "(string \<Rightarrow> 64 word option) \<Rightarrow> shell_value \<Rightarrow> shell_value" where
  "increment arith n =
     (case n of
        Unset \<Rightarrow> Counted 1
      | Inherited text \<Rightarrow>
          (case arith text of None \<Rightarrow> Inherited text | Some v \<Rightarrow> Counted (v + 1))
      | Counted v \<Rightarrow> Counted (v + 1))"

text \<open>
  The \<^verbatim>\<open>for full in .../gen_pos/*\<close> loop over the family directories. The test
  \<^verbatim>\<open>[ -s "$full"/"$filename".msa ]\<close> asks the file system, the parameter \<open>nonempty_file\<close>,
  whether the family's alignment file exists and is not empty. The call of RNAMotif in
  the \<^verbatim>\<open>then\<close> branch is commented out in the script.
\<close>

fun family_loop ::
  "(string \<Rightarrow> 64 word option) \<Rightarrow> (string \<Rightarrow> bool) \<Rightarrow> string list \<Rightarrow> script_state
     \<Rightarrow> script_state" where
  "family_loop arith nonempty_file [] st = st"
| "family_loop arith nonempty_file (full # rest) st =
     (let filename = strip_dirs full;
          st1 = st\<lparr>echoed := echoed st @ [GetsProcessed filename]\<rparr>
      in if nonempty_file (full @ ''/'' @ filename @ ''.msa'')
         then family_loop arith nonempty_file rest
                (st1\<lparr>number := increment arith (number st1)\<rparr>)
         else family_loop arith nonempty_file rest
                (st1\<lparr>echoed := echoed st1 @ [NoInfernalFile]\<rparr>))"

text \<open>
  The whole script. Line 2, \<^verbatim>\<open>declare -i number\<close>, assigns nothing, and line 3,
  \<^verbatim>\<open>number = 0\<close>, runs a command called \<^verbatim>\<open>number\<close> and assigns nothing either, so when the
  loop starts the variable has the value \<open>inherited\<close> that the script's environment gave
  it.
\<close>

definition batch_script ::
  "(string \<Rightarrow> 64 word option) \<Rightarrow> shell_value \<Rightarrow> (string \<Rightarrow> bool) \<Rightarrow> string list
     \<Rightarrow> script_line list" where
  "batch_script arith inherited nonempty_file fulls =
     (let st = family_loop arith nonempty_file fulls
                 \<lparr>number = inherited, echoed = [MoveFiles]\<rparr>
      in echoed st @ [FamiliesProcessed (number st)])"

text \<open>The families of a batch that pass the presence test.\<close>

definition present_families :: "(string \<Rightarrow> bool) \<Rightarrow> string list \<Rightarrow> string list" where
  "present_families nonempty_file fulls =
     filter (\<lambda>full. nonempty_file (full @ ''/'' @ strip_dirs full @ ''.msa'')) fulls"

section \<open>The Constraint Translator of the specification\<close>

text \<open>
  Modelled from the spec: the bracket alphabet of the reference annotation
  (\<^verbatim>\<open>WUSStoPseudoBracket\<close> is defined in \<^verbatim>\<open>RNAlib_utils.h\<close>, which is missing). The opening
  brackets of the bracket classes and the upper-case pseudoknot letters open a pair, the
  closing brackets and the lower-case letters close one; dots and every other symbol
  mean unpaired.
\<close>

definition is_open :: "char \<Rightarrow> bool" where
  "is_open c = (c \<in> set ''(<[{'' \<or> (65 \<le> (of_char c :: nat) \<and> (of_char c :: nat) \<le> 90))"

definition is_close :: "char \<Rightarrow> bool" where
  "is_close c = (c \<in> set '')>]}'' \<or> (97 \<le> (of_char c :: nat) \<and> (of_char c :: nat) \<le> 122))"

text \<open>
  Modelled from the spec: the translation of an annotation from a given nesting depth.
  The output has the same length and a single bracket class plus the unpaired marker;
  a closing bracket with nothing open, or a bracket left open at the end, is a
  FormatError (unbalanced brackets).
\<close>

fun translate_from :: "nat \<Rightarrow> string \<Rightarrow> error + string" where
  "translate_from depth [] = (if depth = 0 then Inr [] else Inl FormatError)"
| "translate_from depth (c # cs) =
     (if is_open c then
        (case translate_from (Suc depth) cs of
           Inl e \<Rightarrow> Inl e | Inr r \<Rightarrow> Inr (CHR ''('' # r))
      else if is_close c then
        (if depth = 0 then Inl FormatError
         else (case translate_from (depth - 1) cs of
                 Inl e \<Rightarrow> Inl e | Inr r \<Rightarrow> Inr (CHR '')'' # r)))
      else
        (case translate_from depth cs of
           Inl e \<Rightarrow> Inl e | Inr r \<Rightarrow> Inr (CHR ''.'' # r)))"

text \<open>
  Modelled from the spec: the Constraint Translator, with the argument that the call on
  line 275 gives it, the annotation alone. It fails with a FormatError if the brackets
  are unbalanced. The other failure of the specification, an annotation whose length is
  not the alignment's column count, needs the column count, which the call does not
  pass.
\<close>

definition WUSStoPseudoBracket_spec :: "string \<Rightarrow> error + string" where
  "WUSStoPseudoBracket_spec annotation = translate_from 0 annotation"

text \<open>
  The brackets an annotation opens and closes, with the bracket classes folded into one.
\<close>

definition opens :: "string \<Rightarrow> nat" where
  "opens s = length (filter is_open s)"

definition closes :: "string \<Rightarrow> nat" where
  "closes s = length (filter is_close s)"

text \<open>
  Balanced brackets, said without the scan: no prefix of the annotation closes more
  brackets than it opens, and the whole annotation opens as many as it closes.
\<close>

definition balanced :: "string \<Rightarrow> bool" where
  "balanced s = (list_all (\<lambda>p. closes p \<le> opens p) (prefixes s) \<and> opens s = closes s)"

section \<open>The Structure Partitioner of the specification\<close>

text \<open>
  Modelled from the spec: the labels of the Structure Partitioner's walk
  (\<^verbatim>\<open>structurePartition\<close> is defined in \<^verbatim>\<open>motif.h\<close>, which is missing). At a cutoff a column
  either belongs to a stem, numbered in the order of the stems, or is treated as
  unpaired.
\<close>

datatype label = StemOf nat | Unpaired

text \<open>
  Modelled from the spec: "two pairs (i,j) and (i+1,j-1) are merged into the same stem".
\<close>

definition stacked :: "BasePair \<Rightarrow> BasePair \<Rightarrow> bool" where
  "stacked p q = (fst q = Suc (fst p) \<and> snd p = Suc (snd q))"

text \<open>
  Modelled from the spec: the maximal stems of a Base Pair list that is ordered by
  opening column. A pair joins the stem that starts with the pair stacked inside it.
\<close>

fun stems_of :: "BasePair list \<Rightarrow> BasePair list list" where
  "stems_of [] = []"
| "stems_of (p # ps) =
     (case stems_of ps of
        [] \<Rightarrow> [[p]]
      | s # ss \<Rightarrow> if s \<noteq> [] \<and> stacked p (hd s) then (p # s) # ss else [p] # s # ss)"

text \<open>Modelled from the spec: column \<open>c\<close> is an end of one of the pairs of stem \<open>s\<close>.\<close>

definition in_stem :: "nat \<Rightarrow> BasePair list \<Rightarrow> bool" where
  "in_stem c s = list_ex (\<lambda>p. c = fst p \<or> c = snd p) s"

text \<open>
  Modelled from the spec: (i) a paired column whose confidence is at least the cutoff is
  assigned to a stem, the first stem that has it; (ii) a column whose confidence is below
  the cutoff is treated as unpaired at that cutoff, and so is a column of no pair. The
  column statistics are one value per column, of any linearly ordered type.
\<close>

definition label_of :: "BasePair list list \<Rightarrow> 'a list \<Rightarrow> 'a::linorder \<Rightarrow> nat \<Rightarrow> label" where
  "label_of stems columnStats cutoff c =
     (if cutoff \<le> columnStats ! c then
        (case find (\<lambda>k. in_stem c (stems ! k)) [0..<length stems] of
           Some k \<Rightarrow> StemOf k
         | None \<Rightarrow> Unpaired)
      else Unpaired)"

text \<open>
  Modelled from the spec: the greedy walk over the columns. The labels of the columns
  \<open>start\<close>, \<open>start + 1\<close>, ... are cut into maximal runs of one label, each with its first
  and last column.
\<close>

fun segments :: "label list \<Rightarrow> nat \<Rightarrow> (label \<times> nat \<times> nat) list" where
  "segments [] start = []"
| "segments (l # ls) start =
     (case segments ls (Suc start) of
        [] \<Rightarrow> [(l, start, start)]
      | (l', a, b) # rest \<Rightarrow>
          if l' = l then (l, start, b) # rest else (l, start, start) # (l', a, b) # rest)"

text \<open>Modelled from the spec: the stem element of stem \<open>k\<close>, with the runs of its columns.\<close>

definition stem_element :: "(label \<times> nat \<times> nat) list \<Rightarrow> nat \<Rightarrow> StructuralElement" where
  "stem_element segs k = (Stem, map snd (filter (\<lambda>seg. fst seg = StemOf k) segs))"

text \<open>
  Modelled from the spec: (iii) an unpaired run enclosed by one stem on both sides is a
  hairpin loop, one between two different stems is a multi-branch junction. A run at an
  end of the alignment is neither.
\<close>

definition classify :: "label option \<Rightarrow> label option \<Rightarrow> element_kind" where
  "classify left right =
     (case (left, right) of
        (Some (StemOf k), Some (StemOf k')) \<Rightarrow>
          if k = k' then HairpinLoop else MultiBranchJunction
      | _ \<Rightarrow> OtherLoop)"

text \<open>
  Modelled from the spec: the loop elements, one for each unpaired run, classified by the
  labels of the runs on its two sides.
\<close>

fun loop_elements ::
  "label option \<Rightarrow> (label \<times> nat \<times> nat) list \<Rightarrow> StructuralElement list" where
  "loop_elements left [] = []"
| "loop_elements left ((l, a, b) # rest) =
     (if l = Unpaired then
        (classify left (case rest of [] \<Rightarrow> None | (l', _) # _ \<Rightarrow> Some l'), [(a, b)])
          # loop_elements (Some l) rest
      else loop_elements (Some l) rest)"

text \<open>Modelled from the spec: the columns of a range, of a run and of an element.\<close>

definition range_columns :: "nat \<times> nat \<Rightarrow> nat list" where
  "range_columns r = [fst r..<Suc (snd r)]"

definition segment_columns :: "label \<times> nat \<times> nat \<Rightarrow> nat list" where
  "segment_columns seg = range_columns (snd seg)"

definition columns_of :: "StructuralElement \<Rightarrow> nat list" where
  "columns_of e = concat (map range_columns (snd e))"

text \<open>
  Modelled from the spec: (iv) every column of the alignment is assigned to exactly one
  element of the profile.
\<close>

definition assigned_once :: "MotifProfile \<Rightarrow> nat \<Rightarrow> bool" where
  "assigned_once profile n =
     list_all (\<lambda>c. length (filter (\<lambda>e. c \<in> set (columns_of e)) profile) = 1) [0..<n]"

text \<open>
  Modelled from the spec: the decomposition at one cutoff. The stems of the consensus
  structure, the labels of the columns at the cutoff, the runs of the walk, then the
  stem elements that have a column, followed by the loop elements.
\<close>

definition profile_at :: "BasePair list \<Rightarrow> 'a list \<Rightarrow> 'a::linorder \<Rightarrow> MotifProfile" where
  "profile_at consensus columnStats cutoff =
     (let stems = stems_of (sort_key fst consensus);
          labels = map (label_of stems columnStats cutoff) [0..<length columnStats];
          segs = segments labels 0
      in filter (\<lambda>e. snd e \<noteq> []) (map (stem_element segs) [0..<length stems])
           @ loop_elements None segs)"

text \<open>
  Modelled from the spec: the profile of one cutoff, or the Fatal internal error
  PartitionInvariantViolation when a column is assigned to no element or to several.
\<close>

definition partition_at ::
  "BasePair list \<Rightarrow> 'a list \<Rightarrow> 'a::linorder \<Rightarrow> error + MotifProfile" where
  "partition_at consensus columnStats cutoff =
     (let profile = profile_at consensus columnStats cutoff
      in if assigned_once profile (length columnStats) then Inr profile
         else Inl PartitionInvariantViolation)"

text \<open>
  Modelled from the spec: \<^verbatim>\<open>partition(consensus, columnStats, cutoffs)\<close>, the Structure
  Partitioner: one Motif Profile per cutoff, each computed from its cutoff alone.
\<close>

fun partition_spec ::
  "BasePair list \<Rightarrow> 'a list \<Rightarrow> 'a::linorder list \<Rightarrow> error + MotifProfile list" where
  "partition_spec consensus columnStats [] = Inr []"
| "partition_spec consensus columnStats (cutoff # cutoffs) =
     (case partition_at consensus columnStats cutoff of
        Inl e \<Rightarrow> Inl e
      | Inr profile \<Rightarrow>
          (case partition_spec consensus columnStats cutoffs of
             Inl e \<Rightarrow> Inl e
           | Inr ps \<Rightarrow> Inr (profile # ps)))"

section \<open>Definitions for the statements\<close>

text \<open>The calls of the Structure Predictor among the events.\<close>

fun is_consensus_call :: "event \<Rightarrow> bool" where
  "is_consensus_call (Call_getConsensusStructure tag) = True"
| "is_consensus_call _ = False"

text \<open>The calls of the Interaction Graph Builder among the events.\<close>

fun is_createInteractions_call :: "event \<Rightarrow> bool" where
  "is_createInteractions_call (Call_createInteractions s) = True"
| "is_createInteractions_call _ = False"

text \<open>
  The motif as it is when \<^verbatim>\<open>structurePartition\<close> is called on line 300: header and
  alignment copied, one default-constructed graph and pair list per sequence, and the
  consensus structure \<open>cs\<close> that \<^verbatim>\<open>getConsensusStructure\<close> stored.
\<close>

definition folded_motif :: "StockholmRecord \<Rightarrow> BasePair list \<Rightarrow> Motif" where
  "folded_motif record cs =
     \<lparr>m_header = header record, seedAlignment = alignment record,
      interactionGraphs = replicate (length (seqences record)) [],
      interactionPairs = replicate (length (seqences record)) [],
      consensusStructure = cs, profiles = []\<rparr>"

text \<open>The lines the script echoes for one family directory.\<close>

definition family_lines :: "(string \<Rightarrow> bool) \<Rightarrow> string \<Rightarrow> script_line list" where
  "family_lines nonempty_file full =
     (if nonempty_file (full @ ''/'' @ strip_dirs full @ ''.msa'')
      then [GetsProcessed (strip_dirs full)]
      else [GetsProcessed (strip_dirs full), NoInfernalFile])"

text \<open>The families of a batch that fail the presence test.\<close>

definition absent_families :: "(string \<Rightarrow> bool) \<Rightarrow> string list \<Rightarrow> string list" where
  "absent_families nonempty_file fulls =
     filter (\<lambda>full. \<not> nonempty_file (full @ ''/'' @ strip_dirs full @ ''.msa'')) fulls"

text \<open>The length of the longest sequence of a record (0 when it has none).\<close>

definition longest_sequence :: "StockholmRecord \<Rightarrow> nat" where
  "longest_sequence record = foldr (\<lambda>s m. max (length (snd s)) m) (seqences record) 0"

section \<open>Example inputs\<close>

text \<open>
  Small backends and records on which the theorems below are evaluated. The example
  predictor returns a crossing structure for the pseudoknot tag and a nested one
  otherwise; the example partitioner stores one profile with one element.
\<close>

definition example_fold ::
  "StockholmRecord \<Rightarrow> BasePair list \<Rightarrow> string option \<Rightarrow> fold_tag \<Rightarrow> error + BasePair list" where
  "example_fold record cs constraint_bracket tag =
     (case tag of IPknotFold \<Rightarrow> Inr [(0, 2), (1, 3)] | RNALibFold \<Rightarrow> Inr [(0, 3)])"

definition example_partition :: "Motif \<Rightarrow> error + Motif" where
  "example_partition rna_motif = Inr (rna_motif\<lparr>profiles := [[(Stem, [(0, 0), (3, 3)])]]\<rparr>)"

definition example_ext :: externals where
  "example_ext =
     \<lparr>WUSStoPseudoBracket = WUSStoPseudoBracket_spec,
      getConsensusStructure = example_fold,
      structurePartition = example_partition,
      debug_enabled = False\<rparr>"

definition plain_options :: AppOptions where
  "plain_options = \<lparr>verbosity = 1, constrain = False, pseudoknot = False\<rparr>"

definition constrain_options :: AppOptions where
  "constrain_options = \<lparr>verbosity = 1, constrain = True, pseudoknot = False\<rparr>"

definition pseudoknot_options :: AppOptions where
  "pseudoknot_options = \<lparr>verbosity = 1, constrain = False, pseudoknot = True\<rparr>"

definition family_A :: StockholmRecord where
  "family_A =
     \<lparr>header = [''AC'' \<mapsto> ''RF00001'', ''ID'' \<mapsto> ''familyA''],
      seqence_information = [''SS_cons'' \<mapsto> ''(..)''],
      seqences = [(''seq1'', ''ACGU''), (''seq2'', ''GCGC'')],
      alignment = [''ACGU'', ''GCGC'']\<rparr>"

definition family_unbalanced :: StockholmRecord where
  "family_unbalanced = family_A\<lparr>seqence_information := [''SS_cons'' \<mapsto> ''((.)'']\<rparr>"

definition family_long_first :: StockholmRecord where
  "family_long_first =
     family_A
       \<lparr>seqences := [(''seq1'', replicate 1500 CHR ''A''), (''seq2'', replicate 1500 CHR ''C'')],
        alignment := [replicate 1500 CHR ''A'', replicate 1500 CHR ''C'']\<rparr>"

definition example_fold_fails ::
  "StockholmRecord \<Rightarrow> BasePair list \<Rightarrow> string option \<Rightarrow> fold_tag \<Rightarrow> error + BasePair list" where
  "example_fold_fails record cs constraint_bracket tag = Inl (OtherError ''fold'')"

definition example_ext_fold_fails :: externals where
  "example_ext_fold_fails = example_ext\<lparr>getConsensusStructure := example_fold_fails\<rparr>"

definition family_no_AC :: StockholmRecord where
  "family_no_AC = family_A\<lparr>header := [''ID'' \<mapsto> ''familyA'']\<rparr>"

definition family_no_SS_cons :: StockholmRecord where
  "family_no_SS_cons = family_A\<lparr>seqence_information := Map.empty\<rparr>"

definition example_files :: "string \<Rightarrow> bool" where
  "example_files path = (path = ''/data/fam1/fam1.msa'')"

text \<open>The shell's arithmetic on the one text that the examples inherit.\<close>

definition example_arith :: "string \<Rightarrow> 64 word option" where
  "example_arith text = (if text = ''41'' then Some 41 else None)"

definition family_long_no_SS_cons :: StockholmRecord where
  "family_long_no_SS_cons = family_long_first\<lparr>seqence_information := Map.empty\<rparr>"

text \<open>A batch of two families: the second is skipped by the length check.\<close>

definition example_batch :: "StockholmRecord list" where
  "example_batch = [family_A, family_long_first]"

text \<open>The motif the loop body assembles for \<open>family_A\<close> with the example backends.\<close>

definition example_motif_A :: Motif where
  "example_motif_A =
     \<lparr>m_header = [''AC'' \<mapsto> ''RF00001'', ''ID'' \<mapsto> ''familyA''],
      seedAlignment = [''ACGU'', ''GCGC''],
      interactionGraphs = [[], []], interactionPairs = [[], []],
      consensusStructure = [(0, 3)], profiles = [[(Stem, [(0, 0), (3, 3)])]]\<rparr>"

text \<open>
  The state of the example batch before the loop, after iteration 0 and after the whole
  loop.
\<close>

definition example_state_0 :: batch_state where
  "example_state_0 = initial_state example_batch"

definition example_state_1 :: batch_state where
  "example_state_1 =
     \<lparr>motifs = [example_motif_A, default_Motif],
      out = [PrintHeader ''RF00001'' ''familyA'', Call_getConsensusStructure RNALibFold,
             Call_structurePartition]\<rparr>"

definition example_state_2 :: batch_state where
  "example_state_2 =
     \<lparr>motifs = [example_motif_A, default_Motif],
      out = [PrintHeader ''RF00001'' ''familyA'', Call_getConsensusStructure RNALibFold,
             Call_structurePartition, PrintHeader ''RF00001'' ''familyA'',
             PrintSkipping 1500]\<rparr>"

text \<open>The events and the motif of \<open>family_A\<close> when the pseudoknot flag is set.\<close>

definition family_A_events_pseudoknot :: "event list" where
  "family_A_events_pseudoknot =
     [PrintHeader ''RF00001'' ''familyA'', Call_getConsensusStructure IPknotFold,
      Call_structurePartition]"

definition example_motif_A_pseudoknot :: Motif where
  "example_motif_A_pseudoknot = example_motif_A\<lparr>consensusStructure := [(0, 2), (1, 3)]\<rparr>"

text \<open>The state of a batch of one family that the length check skips, after the run.\<close>

definition example_state_skipped :: batch_state where
  "example_state_skipped =
     \<lparr>motifs = [default_Motif],
      out = [PrintHeader ''RF00001'' ''familyA'', PrintSkipping 1500, PrintEndl]\<rparr>"

text \<open>
  A partitioner that always reports the Fatal internal error, and the example backends
  with it in place of the example partitioner.
\<close>

definition example_partition_fails :: "Motif \<Rightarrow> error + Motif" where
  "example_partition_fails rna_motif = Inl PartitionInvariantViolation"

definition example_ext_partition_fails :: externals where
  "example_ext_partition_fails = example_ext\<lparr>structurePartition := example_partition_fails\<rparr>"

text \<open>
  A family of six columns whose annotation has four characters, and the motif the loop
  body assembles for it with the example backends.
\<close>

definition family_six_columns :: StockholmRecord where
  "family_six_columns =
     family_A
       \<lparr>seqences := [(''seq1'', ''ACGUAC''), (''seq2'', ''GCGCGC'')],
        alignment := [''ACGUAC'', ''GCGCGC'']\<rparr>"

definition example_motif_six_columns :: Motif where
  "example_motif_six_columns = example_motif_A\<lparr>seedAlignment := [''ACGUAC'', ''GCGCGC'']\<rparr>"

section \<open>Lemmas about the model\<close>

lemma interaction_loop_motif: "snd (interaction_loop xs i rna_motif) = rna_motif"
  by (induction xs arbitrary: i) simp_all

lemma interaction_loop_count: "fst (interaction_loop xs i rna_motif) = i + int (length xs)"
  by (induction xs arbitrary: i) simp_all

lemma seq_len_of_small:
  assumes "length s < 2 ^ 31"
  shows "seq_len_of s = int (length s)"
proof -
  have "(word_of_nat (length s) :: 32 word) = word_of_int (int (length s))"
    by simp
  then have "seq_len_of s = (int (length s) + 2 ^ 31) mod 2 ^ 32 - 2 ^ 31"
    unfolding seq_len_of_def by (simp only: int_word_sint) simp
  moreover have "(int (length s) + 2 ^ 31) mod 2 ^ 32 = int (length s) + 2 ^ 31"
    using assms by (intro mod_pos_pos_trivial) simp_all
  ultimately show ?thesis by simp
qed

lemma loop_iteration_length:
  "loop_iteration ext options records k st = Inr st' \<Longrightarrow> length (motifs st') = length (motifs st)"
  by (auto simp: loop_iteration_def split: prod.splits sum.splits option.splits)

lemma loop_iteration_frame:
  "loop_iteration ext options records k st = Inr st' \<Longrightarrow> j \<noteq> k \<Longrightarrow> motifs st' ! j = motifs st ! j"
  by (auto simp: loop_iteration_def split: prod.splits sum.splits option.splits)

lemma loop_iteration_own:
  "loop_iteration ext options records k st = Inr st' \<Longrightarrow> k < length (motifs st) \<Longrightarrow>
   motifs st' ! k =
     (case snd (loop_body ext options (records ! k)) of
        Inr (Some rna_motif) \<Rightarrow> rna_motif | _ \<Rightarrow> motifs st ! k)"
  by (auto simp: loop_iteration_def split: prod.splits sum.splits option.splits)

lemma loop_iteration_error_iff:
  "(\<exists>e. loop_iteration ext options records k st = Inl e) \<longleftrightarrow>
   isl (snd (loop_body ext options (records ! k)))"
  by (auto simp: loop_iteration_def split: prod.splits sum.splits option.splits)

lemma run_schedule_length:
  "run_schedule ext options records sched st = Inr st' \<Longrightarrow> length (motifs st') = length (motifs st)"
proof (induction sched arbitrary: st)
  case Nil
  then show ?case by simp
next
  case (Cons k ks)
  then show ?case
    by (auto split: sum.splits dest: loop_iteration_length)
qed

lemma run_schedule_nth:
  "run_schedule ext options records sched st = Inr st' \<Longrightarrow> j < length (motifs st) \<Longrightarrow>
   motifs st' ! j =
     (if j \<in> set sched then
        (case snd (loop_body ext options (records ! j)) of
           Inr (Some rna_motif) \<Rightarrow> rna_motif | _ \<Rightarrow> motifs st ! j)
      else motifs st ! j)"
proof (induction sched arbitrary: st)
  case Nil
  then show ?case by simp
next
  case (Cons k ks)
  from Cons.prems(1) obtain st1 where
    it: "loop_iteration ext options records k st = Inr st1" and
    rest: "run_schedule ext options records ks st1 = Inr st'"
    by (auto split: sum.splits)
  have len: "length (motifs st1) = length (motifs st)"
    using it by (rule loop_iteration_length)
  have ih: "motifs st' ! j =
     (if j \<in> set ks then
        (case snd (loop_body ext options (records ! j)) of
           Inr (Some rna_motif) \<Rightarrow> rna_motif | _ \<Rightarrow> motifs st1 ! j)
      else motifs st1 ! j)"
    using Cons.IH [OF rest] Cons.prems(2) len by simp
  show ?case
  proof (cases "j = k")
    case True
    have own: "motifs st1 ! k =
     (case snd (loop_body ext options (records ! k)) of
        Inr (Some rna_motif) \<Rightarrow> rna_motif | _ \<Rightarrow> motifs st ! k)"
      using loop_iteration_own [OF it] Cons.prems(2) True by simp
    show ?thesis using ih own True
      by (auto split: sum.splits option.splits)
  next
    case False
    have "motifs st1 ! j = motifs st ! j"
      using loop_iteration_frame [OF it False] .
    then show ?thesis using ih False
      by (auto split: sum.splits option.splits)
  qed
qed

lemma run_schedule_error_iff:
  "(\<exists>e. run_schedule ext options records sched st = Inl e) \<longleftrightarrow>
   (\<exists>k \<in> set sched. isl (snd (loop_body ext options (records ! k))))"
proof (induction sched arbitrary: st)
  case Nil
  then show ?case by simp
next
  case (Cons k ks)
  show ?case
  proof (cases "loop_iteration ext options records k st")
    case (Inl e)
    then have "isl (snd (loop_body ext options (records ! k)))"
      using loop_iteration_error_iff [of ext options records k st] by blast
    then show ?thesis using Inl by auto
  next
    case (Inr st1)
    then have "\<not> isl (snd (loop_body ext options (records ! k)))"
      using loop_iteration_error_iff [of ext options records k st] by auto
    then show ?thesis using Inr Cons.IH [of st1] by auto
  qed
qed

lemmas example_defs =
  example_ext_def example_fold_def example_partition_def plain_options_def
  constrain_options_def pseudoknot_options_def family_A_def family_long_first_def
  example_batch_def example_motif_A_def

lemmas body_defs =
  loop_body_def assemble_def constraint_stage_def debug_stage_def consensus_stage_def
  partition_stage_def init_motif_def default_Motif_def map_at_def seq_len_of_def
  fold_tag_of_def

lemma loop_body_family_A:
  "loop_body example_ext plain_options family_A =
     ([PrintHeader ''RF00001'' ''familyA'', Call_getConsensusStructure RNALibFold,
       Call_structurePartition], Inr (Some example_motif_A))"
  by (simp add: body_defs example_defs)

lemma loop_body_family_long_first:
  "loop_body example_ext plain_options family_long_first =
     ([PrintHeader ''RF00001'' ''familyA'', PrintSkipping 1500], Inr None)"
  by (simp add: body_defs example_defs)

lemma run_schedule_motifs:
  assumes run: "run_schedule ext options records sched (initial_state records) = Inr st"
    and all: "set sched = set [0..<length records]"
  shows "motifs st = map (family_result ext options) records"
proof (rule nth_equalityI)
  show len: "length (motifs st) = length (map (family_result ext options) records)"
    using run_schedule_length [OF run] by (simp add: initial_state_def)
  fix j
  assume "j < length (motifs st)"
  then have j: "j < length records" using len by simp
  then have "j \<in> set sched" using all by simp
  then have "motifs st ! j =
     (case snd (loop_body ext options (records ! j)) of
        Inr (Some rna_motif) \<Rightarrow> rna_motif | _ \<Rightarrow> motifs (initial_state records) ! j)"
    using run_schedule_nth [OF run, of j] j by (simp add: initial_state_def)
  also have "\<dots> = family_result ext options (records ! j)"
    using j by (simp add: family_result_def initial_state_def split: sum.splits option.splits)
  finally show "motifs st ! j = map (family_result ext options) records ! j"
    using j by simp
qed

lemma example_iteration_0:
  "loop_iteration example_ext plain_options example_batch 0 example_state_0 = Inr example_state_1"
  by (simp add: loop_iteration_def example_state_0_def example_state_1_def initial_state_def
      example_batch_def loop_body_family_A)

lemma example_main_loop:
  "main_loop example_ext plain_options example_batch = Inr example_state_2"
  by (simp add: main_loop_def loop_iteration_def example_state_2_def initial_state_def
      example_batch_def loop_body_family_A loop_body_family_long_first upt_rec_numeral)

lemma consensus_stage_eq:
  "consensus_stage ext options record c rna_motif =
     ([Call_getConsensusStructure (fold_tag_of options)],
      (case getConsensusStructure ext record (consensusStructure rna_motif) c (fold_tag_of options) of
         Inl e \<Rightarrow> Inl e
       | Inr cs \<Rightarrow> Inr (rna_motif\<lparr>consensusStructure := cs\<rparr>)))"
  by (simp add: consensus_stage_def fold_tag_of_def split: sum.splits)

lemma constraint_stage_cases:
  "constraint_stage ext options record = (ev, outcome) \<Longrightarrow>
     (\<not> constrain options \<and> ev = [] \<and> outcome = Inr None) \<or>
     (constrain options \<and> seqence_information record ''SS_cons'' = None \<and> ev = [] \<and>
        outcome = Inl OutOfRange) \<or>
     (\<exists>ss. constrain options \<and> seqence_information record ''SS_cons'' = Some ss \<and>
        ev = [Call_WUSStoPseudoBracket ss] \<and>
        outcome = (case WUSStoPseudoBracket ext ss of Inl e \<Rightarrow> Inl e | Inr c \<Rightarrow> Inr (Some c)))"
  by (auto simp: constraint_stage_def map_at_def split: if_splits option.splits sum.splits)

lemma debug_stage_cases:
  "debug_stage ext record = (ev, outcome) \<Longrightarrow>
     (\<not> debug_enabled ext \<and> ev = [] \<and> outcome = Inr ()) \<or>
     (debug_enabled ext \<and> seqence_information record ''SS_cons'' = None \<and> ev = [] \<and>
        outcome = Inl OutOfRange) \<or>
     (\<exists>ss. debug_enabled ext \<and> seqence_information record ''SS_cons'' = Some ss \<and>
        ev = [DebugMsg ss] \<and> outcome = Inr ())"
  by (auto simp: debug_stage_def map_at_def split: if_splits option.splits sum.splits)

lemma init_motif_folded:
  "(snd (interaction_loop (seqences record) i (init_motif record)))\<lparr>consensusStructure := cs\<rparr>
     = folded_motif record cs"
  by (simp add: interaction_loop_motif init_motif_def default_Motif_def folded_motif_def)

lemma init_motif_consensus:
  "consensusStructure (snd (interaction_loop (seqences record) i (init_motif record))) = []"
  by (simp add: interaction_loop_motif init_motif_def default_Motif_def)

lemma assemble_eq:
  "assemble ext options record =
     (case constraint_stage ext options record of
        (ev1, Inl e) \<Rightarrow> (ev1, Inl e)
      | (ev1, Inr c) \<Rightarrow>
          (case debug_stage ext record of
             (ev2, Inl e) \<Rightarrow> (ev1 @ ev2, Inl e)
           | (ev2, Inr _) \<Rightarrow>
               (case getConsensusStructure ext record [] c (fold_tag_of options) of
                  Inl e \<Rightarrow> (ev1 @ ev2 @ [Call_getConsensusStructure (fold_tag_of options)], Inl e)
                | Inr cs \<Rightarrow>
                    (ev1 @ ev2 @ [Call_getConsensusStructure (fold_tag_of options),
                                  Call_structurePartition],
                     structurePartition ext (folded_motif record cs)))))"
  by (simp add: assemble_def consensus_stage_eq partition_stage_def init_motif_folded
      init_motif_consensus Let_def split: prod.splits sum.splits)

lemma assemble_InrD:
  assumes "assemble ext options record = (ev, Inr rna_motif)"
  shows "\<exists>ev1 ev2 c cs.
           constraint_stage ext options record = (ev1, Inr c) \<and>
           debug_stage ext record = (ev2, Inr ()) \<and>
           getConsensusStructure ext record [] c (fold_tag_of options) = Inr cs \<and>
           structurePartition ext (folded_motif record cs) = Inr rna_motif \<and>
           ev = ev1 @ ev2 @ [Call_getConsensusStructure (fold_tag_of options),
                             Call_structurePartition]"
  using assms unfolding assemble_eq
  by (auto split: prod.splits sum.splits)

lemma loop_body_eq:
  "loop_body ext options record =
     (case header record ''AC'' of
        None \<Rightarrow> ([], Inl OutOfRange)
      | Some ac \<Rightarrow>
          (case header record ''ID'' of
             None \<Rightarrow> ([], Inl OutOfRange)
           | Some ident \<Rightarrow>
               (case seqences record of
                  [] \<Rightarrow> ([PrintHeader ac ident], Inl BeginOfEmpty)
                | first # _ \<Rightarrow>
                    if seq_len_of (snd first) > 1000 then
                      ([PrintHeader ac ident, PrintSkipping (seq_len_of (snd first))], Inr None)
                    else
                      (PrintHeader ac ident # fst (assemble ext options record),
                       map_sum id Some (snd (assemble ext options record))))))"
  by (simp add: loop_body_def map_at_def Let_def split: option.splits list.splits prod.splits sum.splits)

lemma loop_body_SomeD:
  assumes "loop_body ext options record = (ev, Inr (Some rna_motif))"
  shows "\<exists>ac ident first rest ev'.
           header record ''AC'' = Some ac \<and> header record ''ID'' = Some ident \<and>
           seqences record = first # rest \<and> seq_len_of (snd first) \<le> 1000 \<and>
           assemble ext options record = (ev', Inr rna_motif) \<and>
           ev = PrintHeader ac ident # ev'"
proof (cases "assemble ext options record")
  case (Pair ev' outcome)
  show ?thesis
  proof (cases outcome)
    case (Inl e)
    with Pair assms show ?thesis
      unfolding loop_body_eq by (auto split: option.splits list.splits if_splits)
  next
    case (Inr m)
    with Pair assms show ?thesis
      unfolding loop_body_eq by (auto split: option.splits list.splits if_splits)
  qed
qed

lemma constraint_stage_events:
  assumes "constraint_stage ext options record = (ev, outcome)"
  shows "filter is_consensus_call ev = []" and "filter is_createInteractions_call ev = []"
  using constraint_stage_cases [OF assms] by auto

lemma debug_stage_events:
  assumes "debug_stage ext record = (ev, outcome)"
  shows "filter is_consensus_call ev = []" and "filter is_createInteractions_call ev = []"
  using debug_stage_cases [OF assms] by auto

lemma assemble_consensus_calls:
  assumes "assemble ext options record = (ev, outcome)"
  shows "filter is_consensus_call ev = [] \<and> isl outcome \<or>
         filter is_consensus_call ev = [Call_getConsensusStructure (fold_tag_of options)]"
proof (cases "constraint_stage ext options record")
  case c: (Pair ev1 o1)
  note e1 = constraint_stage_events(1) [OF c]
  show ?thesis
  proof (cases "debug_stage ext record")
    case d: (Pair ev2 o2)
    note e2 = debug_stage_events(1) [OF d]
    show ?thesis
      using assms c d e1 e2 unfolding assemble_eq
      by (auto split: sum.splits)
  qed
qed

lemma assemble_no_createInteractions:
  assumes "assemble ext options record = (ev, outcome)"
  shows "filter is_createInteractions_call ev = []"
proof (cases "constraint_stage ext options record")
  case c: (Pair ev1 o1)
  note e1 = constraint_stage_events(2) [OF c]
  show ?thesis
  proof (cases "debug_stage ext record")
    case d: (Pair ev2 o2)
    note e2 = debug_stage_events(2) [OF d]
    show ?thesis
      using assms c d e1 e2 unfolding assemble_eq
      by (auto split: sum.splits)
  qed
qed

lemma loop_body_consensus_calls:
  assumes "loop_body ext options record = (ev, outcome)"
  shows "filter is_consensus_call ev = [] \<and> (\<forall>m. outcome \<noteq> Inr (Some m)) \<or>
         filter is_consensus_call ev = [Call_getConsensusStructure (fold_tag_of options)]"
proof (cases "assemble ext options record")
  case (Pair ev' o')
  from assemble_consensus_calls [OF Pair] assms Pair show ?thesis
    unfolding loop_body_eq
    by (cases o') (auto split: option.splits list.splits if_splits)
qed

lemma loop_body_no_createInteractions:
  assumes "loop_body ext options record = (ev, outcome)"
  shows "filter is_createInteractions_call ev = []"
proof (cases "assemble ext options record")
  case (Pair ev' o')
  from assemble_no_createInteractions [OF Pair] assms Pair show ?thesis
    unfolding loop_body_eq
    by (auto split: option.splits list.splits if_splits sum.splits)
qed

lemma loop_body_family_A_pseudoknot:
  "loop_body example_ext pseudoknot_options family_A =
     (family_A_events_pseudoknot, Inr (Some example_motif_A_pseudoknot))"
  by (simp add: body_defs example_defs family_A_events_pseudoknot_def example_motif_A_pseudoknot_def)

lemma isl_run_schedule_iff:
  "isl (run_schedule ext options records sched st) \<longleftrightarrow>
   (\<exists>k \<in> set sched. isl (snd (loop_body ext options (records ! k))))"
  using run_schedule_error_iff [of ext options records sched st]
  by (simp add: isl_def)

lemma main_loop_error:
  assumes "k < length records" and "isl (snd (loop_body ext options (records ! k)))"
  shows "isl (main_loop ext options records)"
  unfolding main_loop_def isl_run_schedule_iff using assms by auto

lemma loop_body_family_no_AC:
  "loop_body example_ext constrain_options family_no_AC = ([], Inl OutOfRange)"
  by (simp add: body_defs example_defs family_no_AC_def)

lemma loop_body_family_no_SS_cons:
  "loop_body example_ext constrain_options family_no_SS_cons
     = ([PrintHeader ''RF00001'' ''familyA''], Inl OutOfRange)"
  by (simp add: body_defs example_defs family_no_SS_cons_def)

lemma loop_body_family_A_constrain:
  "loop_body example_ext constrain_options family_A =
     ([PrintHeader ''RF00001'' ''familyA'', Call_WUSStoPseudoBracket ''(..)'',
       Call_getConsensusStructure RNALibFold, Call_structurePartition],
      Inr (Some example_motif_A))"
  by (simp add: body_defs example_defs WUSStoPseudoBracket_spec_def is_open_def is_close_def)

lemma loop_body_fold_fails:
  "loop_body example_ext_fold_fails plain_options family_A =
     ([PrintHeader ''RF00001'' ''familyA'', Call_getConsensusStructure RNALibFold],
      Inl (OtherError ''fold''))"
  by (simp add: body_defs example_defs example_ext_fold_fails_def example_fold_fails_def)

lemma main_loop_fold_fails:
  "main_loop example_ext_fold_fails plain_options [family_long_first, family_A]
     = Inl (OtherError ''fold'')"
proof -
  have "loop_body example_ext_fold_fails plain_options family_long_first =
     ([PrintHeader ''RF00001'' ''familyA'', PrintSkipping 1500], Inr None)"
    by (simp add: body_defs example_defs example_ext_fold_fails_def example_fold_fails_def)
  then show ?thesis
    by (simp add: main_loop_def loop_iteration_def initial_state_def loop_body_fold_fails
        upt_rec_numeral)
qed

lemma increment_simps:
  "increment arith Unset = Counted 1"
  "increment arith (Counted v) = Counted (v + 1)"
  "arith text = Some v \<Longrightarrow> increment arith (Inherited text) = Counted (v + 1)"
  "arith text = None \<Longrightarrow> increment arith (Inherited text) = Inherited text"
  by (simp_all add: increment_def)

lemma increment_funpow_Counted:
  "(increment arith ^^ n) (Counted v) = Counted (v + word_of_nat n)"
  by (induction n) (simp_all add: increment_simps)

lemma increment_funpow_Unset:
  "0 < n \<Longrightarrow> (increment arith ^^ n) Unset = Counted (word_of_nat n)"
proof (cases n)
  case 0
  assume "0 < n"
  with 0 show ?thesis by simp
next
  case (Suc m)
  have "(increment arith ^^ Suc m) Unset = (increment arith ^^ m) (increment arith Unset)"
    by (simp only: funpow_Suc_right comp_apply)
  also have "\<dots> = Counted (1 + word_of_nat m)"
    by (simp add: increment_simps increment_funpow_Counted)
  finally show ?thesis using Suc by simp
qed

lemma family_loop_number:
  "number (family_loop arith nonempty_file fulls st) =
     (increment arith ^^ length (present_families nonempty_file fulls)) (number st)"
proof (induction fulls arbitrary: st)
  case Nil
  then show ?case by (simp add: present_families_def)
next
  case (Cons full rest)
  show ?case
    by (simp add: Cons.IH present_families_def Let_def funpow_swap1)
qed

lemma family_loop_echoed:
  "echoed (family_loop arith nonempty_file fulls st) =
     echoed st @ concat (map (family_lines nonempty_file) fulls)"
proof (induction fulls arbitrary: st)
  case Nil
  then show ?case by simp
next
  case (Cons full rest)
  show ?case
    by (simp add: Cons.IH family_lines_def Let_def)
qed

lemma batch_script_eq:
  "batch_script arith inherited nonempty_file fulls =
     MoveFiles # concat (map (family_lines nonempty_file) fulls) @
     [FamiliesProcessed
        ((increment arith ^^ length (present_families nonempty_file fulls)) inherited)]"
  by (simp add: batch_script_def Let_def family_loop_number family_loop_echoed)

lemma example_present:
  "present_families example_files [''/data/fam1'', ''/data/fam2''] = [''/data/fam1'']"
  "absent_families example_files [''/data/fam1'', ''/data/fam2''] = [''/data/fam2'']"
  "present_families example_files [''/data/fam1''] = [''/data/fam1'']"
  "absent_families example_files [''/data/fam1''] = []"
  by (simp_all add: present_families_def absent_families_def example_files_def strip_dirs_def)

lemma example_script_two:
  "batch_script example_arith Unset example_files [''/data/fam1'', ''/data/fam2''] =
     [MoveFiles, GetsProcessed ''fam1'', GetsProcessed ''fam2'', NoInfernalFile,
      FamiliesProcessed (Counted 1)]"
  by (simp add: batch_script_def example_files_def strip_dirs_def increment_simps Let_def)

lemma example_script_one:
  "batch_script example_arith Unset example_files [''/data/fam1''] =
     [MoveFiles, GetsProcessed ''fam1'', FamiliesProcessed (Counted 1)]"
  by (simp add: batch_script_def example_files_def strip_dirs_def increment_simps Let_def)

lemma example_script_inherited:
  "batch_script example_arith (Inherited ''41'') example_files [''/data/fam1''] =
     [MoveFiles, GetsProcessed ''fam1'', FamiliesProcessed (Counted 42)]"
  by (simp add: batch_script_def example_files_def strip_dirs_def increment_simps Let_def
      example_arith_def)

lemma longest_sequence_same_length:
  assumes "seqences record = first # rest"
    and "list_all (\<lambda>s. length (snd s) = columns) (seqences record)"
  shows "longest_sequence record = columns" and "length (snd first) = columns"
proof -
  have "list_all (\<lambda>s. length (snd s) = columns) xs \<Longrightarrow>
        foldr (\<lambda>s m. max (length (snd s)) m) xs 0 = (if xs = [] then 0 else columns)"
    for xs :: "(string \<times> string) list"
    by (induction xs) auto
  from this [OF assms(2)] assms(1) show "longest_sequence record = columns"
    by (simp add: longest_sequence_def)
  from assms show "length (snd first) = columns"
    by simp
qed

lemma loop_body_family_six_columns:
  "loop_body example_ext constrain_options family_six_columns =
     ([PrintHeader ''RF00001'' ''familyA'', Call_WUSStoPseudoBracket ''(..)'',
       Call_getConsensusStructure RNALibFold, Call_structurePartition],
      Inr (Some example_motif_six_columns))"
  by (simp add: body_defs example_defs family_six_columns_def example_motif_six_columns_def
      WUSStoPseudoBracket_spec_def is_open_def is_close_def)

lemma example_main_run_skipped:
  "main_run example_ext plain_options [family_long_first] = Inr example_state_skipped"
  by (simp add: main_run_def main_loop_def loop_iteration_def initial_state_def
      loop_body_family_long_first example_state_skipped_def)

lemma open_not_close: "is_open c \<Longrightarrow> \<not> is_close c"
  by (auto simp: is_open_def is_close_def)

lemma translate_from_error: "translate_from depth s = Inl e \<Longrightarrow> e = FormatError"
  by (induction s arbitrary: depth e) (auto split: if_splits sum.splits)

lemma translate_from_ok_iff:
  "(\<exists>r. translate_from depth s = Inr r) \<longleftrightarrow>
   list_all (\<lambda>p. closes p \<le> depth + opens p) (prefixes s) \<and> depth + opens s = closes s"
proof (induction s arbitrary: depth)
  case Nil
  then show ?case by (auto simp: opens_def closes_def)
next
  case (Cons c cs)
  show ?case
  proof (cases "is_open c")
    case True
    then have nc: "\<not> is_close c" by (rule open_not_close)
    have "(\<exists>r. translate_from depth (c # cs) = Inr r) \<longleftrightarrow>
          (\<exists>r. translate_from (Suc depth) cs = Inr r)"
      using True by (auto split: sum.splits)
    also have "\<dots> \<longleftrightarrow> list_all (\<lambda>p. closes p \<le> Suc depth + opens p) (prefixes cs) \<and>
                 Suc depth + opens cs = closes cs"
      by (rule Cons.IH)
    also have "\<dots> \<longleftrightarrow> list_all (\<lambda>p. closes p \<le> depth + opens p) (prefixes (c # cs)) \<and>
                 depth + opens (c # cs) = closes (c # cs)"
      using True nc by (simp add: opens_def closes_def list_all_iff)
    finally show ?thesis .
  next
    case no: False
    show ?thesis
    proof (cases "is_close c")
      case True
      show ?thesis
      proof (cases depth)
        case 0
        have "\<not> list_all (\<lambda>p. closes p \<le> depth + opens p) (prefixes (c # cs))"
          using True no 0
          by (auto simp: opens_def closes_def list_all_iff intro!: bexI [where x = "[]"])
        moreover have "\<not> (\<exists>r. translate_from depth (c # cs) = Inr r)"
          using True no 0 by simp
        ultimately show ?thesis by blast
      next
        case (Suc d)
        have "(\<exists>r. translate_from depth (c # cs) = Inr r) \<longleftrightarrow>
              (\<exists>r. translate_from d cs = Inr r)"
          using True no Suc by (auto split: sum.splits)
        also have "\<dots> \<longleftrightarrow> list_all (\<lambda>p. closes p \<le> d + opens p) (prefixes cs) \<and>
                     d + opens cs = closes cs"
          by (rule Cons.IH)
        also have "\<dots> \<longleftrightarrow> list_all (\<lambda>p. closes p \<le> depth + opens p) (prefixes (c # cs)) \<and>
                     depth + opens (c # cs) = closes (c # cs)"
          using True no Suc by (simp add: opens_def closes_def list_all_iff)
        finally show ?thesis .
      qed
    next
      case False
      have "(\<exists>r. translate_from depth (c # cs) = Inr r) \<longleftrightarrow>
            (\<exists>r. translate_from depth cs = Inr r)"
        using False no by (auto split: sum.splits)
      also have "\<dots> \<longleftrightarrow> list_all (\<lambda>p. closes p \<le> depth + opens p) (prefixes cs) \<and>
                   depth + opens cs = closes cs"
        by (rule Cons.IH)
      also have "\<dots> \<longleftrightarrow> list_all (\<lambda>p. closes p \<le> depth + opens p) (prefixes (c # cs)) \<and>
                   depth + opens (c # cs) = closes (c # cs)"
        using False no by (simp add: opens_def closes_def list_all_iff)
      finally show ?thesis .
    qed
  qed
qed

lemma translate_from_fails_iff:
  "translate_from 0 s = Inl FormatError \<longleftrightarrow> \<not> balanced s"
proof -
  have "(\<exists>r. translate_from 0 s = Inr r) \<longleftrightarrow> balanced s"
    using translate_from_ok_iff [of 0 s] by (simp add: balanced_def)
  moreover have "translate_from 0 s = Inl FormatError \<longleftrightarrow> \<not> (\<exists>r. translate_from 0 s = Inr r)"
    using translate_from_error [of 0 s] by (cases "translate_from 0 s") auto
  ultimately show ?thesis by simp
qed

lemma translate_from_length:
  "translate_from depth s = Inr r \<Longrightarrow> length r = length s"
  by (induction s arbitrary: depth r) (auto split: if_splits sum.splits)

lemma segments_Nil_iff: "segments ls start = [] \<longleftrightarrow> ls = []"
  by (cases ls) (auto split: list.splits)

lemma segments_first:
  "segments ls start = (l, a, b) # rest \<Longrightarrow> a = start \<and> start \<le> b"
proof (induction ls arbitrary: start l a b rest)
  case Nil
  then show ?case by simp
next
  case (Cons l0 ls)
  show ?case
  proof (cases "segments ls (Suc start)")
    case Nil
    with Cons.prems show ?thesis by simp
  next
    case (Cons seg rest')
    obtain l' a' b' where seg: "seg = (l', a', b')" by (cases seg)
    from Cons.IH [of "Suc start" l' a' b' rest'] Cons seg
    have "a' = Suc start \<and> Suc start \<le> b'" by simp
    with Cons.prems Cons seg show ?thesis by (auto split: if_splits)
  qed
qed

lemma segments_columns:
  "concat (map segment_columns (segments ls start)) = [start..<start + length ls]"
proof (induction ls arbitrary: start)
  case Nil
  then show ?case by simp
next
  case (Cons l0 ls)
  show ?case
  proof (cases "segments ls (Suc start)")
    case Nil
    then have "ls = []" by (simp add: segments_Nil_iff)
    with Nil show ?thesis by (simp add: segment_columns_def range_columns_def)
  next
    case c: (Cons seg rest')
    obtain l' a' b' where seg: "seg = (l', a', b')" by (cases seg)
    from segments_first [of ls "Suc start" l' a' b' rest'] c seg
    have a': "a' = Suc start" and b': "Suc start \<le> b'" by simp_all
    have ih: "concat (map segment_columns (seg # rest')) = [Suc start..<Suc start + length ls]"
      using Cons.IH [of "Suc start"] c by simp
    have merged: "[start..<Suc b'] = start # [Suc start..<Suc b']"
      using b' by (simp add: upt_conv_Cons del: upt_Suc)
    have single: "[start..<Suc start] = [start]"
      by simp
    have "concat (map segment_columns (segments (l0 # ls) start))
            = start # concat (map segment_columns (seg # rest'))"
      using c seg a' merged single
      by (simp add: segment_columns_def range_columns_def del: upt_Suc)
    also have "\<dots> = start # [Suc start..<Suc start + length ls]"
      using ih by simp
    also have "\<dots> = [start..<start + length (l0 # ls)]"
      by (simp add: upt_conv_Cons del: upt_Suc)
    finally show ?thesis .
  qed
qed

lemma segments_labels:
  "fst ` set (segments ls start) \<subseteq> set ls"
proof (induction ls arbitrary: start)
  case Nil
  then show ?case by simp
next
  case (Cons l0 ls)
  show ?case
  proof (cases "segments ls (Suc start)")
    case Nil
    then show ?thesis by simp
  next
    case c: (Cons seg' rest')
    obtain l' a' b' where seg': "seg' = (l', a', b')" by (cases seg')
    have "fst ` set (seg' # rest') \<subseteq> set ls"
      using Cons.IH [of "Suc start"] c by simp
    with c seg' show ?thesis
      by (auto split: if_splits)
  qed
qed

lemma label_of_range:
  "label_of stems columnStats cutoff c = StemOf k \<Longrightarrow> k < length stems"
  by (auto simp: label_of_def find_Some_iff split: if_splits option.splits)

lemma filter_columns_union:
  assumes "\<And>x. \<not> (P x \<and> Q x)"
  shows "mset (concat (map f (filter P xs))) + mset (concat (map f (filter Q xs)))
           = mset (concat (map f (filter (\<lambda>x. P x \<or> Q x) xs)))"
  using assms by (induction xs) auto

lemma stem_columns:
  "mset (concat (map (\<lambda>k. concat (map f (filter (\<lambda>seg. fst seg = StemOf k) segs))) [0..<K]))
     = mset (concat (map f (filter (\<lambda>seg. \<exists>k<K. fst seg = StemOf k) segs)))"
proof (induction K)
  case 0
  then show ?case by simp
next
  case (Suc K)
  have "mset (concat (map f (filter (\<lambda>seg. \<exists>k<K. fst seg = StemOf k) segs)))
          + mset (concat (map f (filter (\<lambda>seg. fst seg = StemOf K) segs)))
        = mset (concat (map f (filter
            (\<lambda>seg. (\<exists>k<K. fst seg = StemOf k) \<or> fst seg = StemOf K) segs)))"
    by (rule filter_columns_union) auto
  moreover have "filter (\<lambda>seg. (\<exists>k<K. fst seg = StemOf k) \<or> fst seg = StemOf K) segs
                   = filter (\<lambda>seg. \<exists>k<Suc K. fst seg = StemOf k) segs"
    by (rule filter_cong) (auto simp: less_Suc_eq)
  moreover have "mset (concat (map (\<lambda>k. concat (map f (filter (\<lambda>seg. fst seg = StemOf k) segs)))
                   [0..<Suc K]))
      = mset (concat (map (\<lambda>k. concat (map f (filter (\<lambda>seg. fst seg = StemOf k) segs)))
                   [0..<K]))
        + mset (concat (map f (filter (\<lambda>seg. fst seg = StemOf K) segs)))"
    by simp
  ultimately show ?case using Suc.IH by simp
qed

lemma columns_of_stem_element:
  "columns_of (stem_element segs k)
     = concat (map segment_columns (filter (\<lambda>seg. fst seg = StemOf k) segs))"
  by (simp add: columns_of_def stem_element_def comp_def segment_columns_def [abs_def])

lemma columns_of_nonempty:
  "concat (map columns_of (filter (\<lambda>e. snd e \<noteq> []) es)) = concat (map columns_of es)"
  by (induction es) (auto simp: columns_of_def)

lemma columns_of_loop_elements:
  "concat (map columns_of (loop_elements left segs))
     = concat (map segment_columns (filter (\<lambda>seg. fst seg = Unpaired) segs))"
  by (induction left segs rule: loop_elements.induct)
     (simp_all add: columns_of_def segment_columns_def)

lemma profile_at_columns:
  "mset (concat (map columns_of (profile_at consensus columnStats cutoff)))
     = mset [0..<length columnStats]"
proof -
  define stems where "stems = stems_of (sort_key fst consensus)"
  define labels where
    "labels = map (label_of stems columnStats cutoff) [0..<length columnStats]"
  define segs where "segs = segments labels 0"
  define K where "K = length stems"
  have valid: "(\<exists>k<K. fst seg = StemOf k) \<or> fst seg = Unpaired" if "seg \<in> set segs" for seg
  proof -
    from that have "fst seg \<in> set labels"
      using segments_labels [of labels 0] by (auto simp: segs_def)
    then obtain c where c: "fst seg = label_of stems columnStats cutoff c"
      by (auto simp: labels_def)
    show ?thesis
    proof (cases "fst seg")
      case (StemOf k)
      with c have "k < K"
        using label_of_range [of stems columnStats cutoff c k] by (simp add: K_def)
      with StemOf show ?thesis by blast
    next
      case Unpaired
      then show ?thesis by simp
    qed
  qed
  have "concat (map columns_of (profile_at consensus columnStats cutoff))
          = concat (map (\<lambda>k. concat (map segment_columns
                (filter (\<lambda>seg. fst seg = StemOf k) segs))) [0..<K])
            @ concat (map segment_columns (filter (\<lambda>seg. fst seg = Unpaired) segs))"
    by (simp add: profile_at_def Let_def columns_of_nonempty columns_of_loop_elements
        columns_of_stem_element comp_def stems_def labels_def segs_def K_def)
  then have "mset (concat (map columns_of (profile_at consensus columnStats cutoff)))
          = mset (concat (map segment_columns
                (filter (\<lambda>seg. \<exists>k<K. fst seg = StemOf k) segs)))
            + mset (concat (map segment_columns (filter (\<lambda>seg. fst seg = Unpaired) segs)))"
    by (simp add: stem_columns)
  also have "\<dots> = mset (concat (map segment_columns
      (filter (\<lambda>seg. (\<exists>k<K. fst seg = StemOf k) \<or> fst seg = Unpaired) segs)))"
    by (rule filter_columns_union) auto
  also have "filter (\<lambda>seg. (\<exists>k<K. fst seg = StemOf k) \<or> fst seg = Unpaired) segs = segs"
    using valid by (simp add: filter_id_conv)
  also have "concat (map segment_columns segs) = [0..<length columnStats]"
    using segments_columns [of labels 0] by (simp add: segs_def labels_def)
  finally show ?thesis .
qed

lemma distinct_concat_once:
  "distinct (concat xss) \<Longrightarrow> c \<in> set (concat xss) \<Longrightarrow>
     length (filter (\<lambda>xs. c \<in> set xs) xss) = 1"
proof (induction xss)
  case Nil
  then show ?case by simp
next
  case (Cons xs xss)
  show ?case
  proof (cases "c \<in> set xs")
    case True
    with Cons.prems(1) have "\<forall>ys \<in> set xss. c \<notin> set ys" by auto
    then have "filter (\<lambda>xs. c \<in> set xs) xss = []" by (simp add: filter_empty_conv)
    with True show ?thesis by simp
  next
    case False
    with Cons show ?thesis by auto
  qed
qed

lemma profile_at_cover:
  "distinct (concat (map columns_of (profile_at consensus columnStats cutoff)))"
  "set (concat (map columns_of (profile_at consensus columnStats cutoff)))
     = {0..<length columnStats}"
proof -
  note m = profile_at_columns [of consensus columnStats cutoff]
  show "distinct (concat (map columns_of (profile_at consensus columnStats cutoff)))"
    using mset_eq_imp_distinct_iff [OF m] by simp
  show "set (concat (map columns_of (profile_at consensus columnStats cutoff)))
     = {0..<length columnStats}"
    using mset_eq_setD [OF m] by simp
qed

lemma profile_at_assigned_once:
  "assigned_once (profile_at consensus columnStats cutoff) (length columnStats)"
proof -
  let ?p = "profile_at consensus columnStats cutoff"
  have "length (filter (\<lambda>e. c \<in> set (columns_of e)) ?p) = 1" if "c < length columnStats" for c
  proof -
    have "c \<in> set (concat (map columns_of ?p))"
      using that profile_at_cover(2) [of consensus columnStats cutoff] by simp
    from distinct_concat_once [OF profile_at_cover(1) this]
    have "length (filter (\<lambda>xs. c \<in> set xs) (map columns_of ?p)) = 1" .
    then show ?thesis by (simp add: filter_map comp_def)
  qed
  then show ?thesis by (simp add: assigned_once_def list_all_iff)
qed

lemma partition_at_ok:
  "partition_at consensus columnStats cutoff = Inr (profile_at consensus columnStats cutoff)"
  by (simp add: partition_at_def Let_def profile_at_assigned_once)

lemma partition_spec_ok:
  "partition_spec consensus columnStats cutoffs
     = Inr (map (profile_at consensus columnStats) cutoffs)"
  by (induction cutoffs) (simp_all add: partition_at_ok)

lemma stems_of_concat: "concat (stems_of ps) = ps"
  by (induction ps) (auto split: list.splits)

lemma assemble_partition_outcome:
  assumes "assemble ext options record = (ev, outcome)"
    and "Call_structurePartition \<in> set ev"
  shows "\<exists>cs. outcome = structurePartition ext (folded_motif record cs)"
proof (cases "constraint_stage ext options record")
  case c: (Pair ev1 o1)
  have e1: "Call_structurePartition \<notin> set ev1"
    using constraint_stage_cases [OF c] by auto
  show ?thesis
  proof (cases "debug_stage ext record")
    case d: (Pair ev2 o2)
    have e2: "Call_structurePartition \<notin> set ev2"
      using debug_stage_cases [OF d] by auto
    show ?thesis
      using assms c d e1 e2 unfolding assemble_eq
      by (auto split: sum.splits)
  qed
qed

lemma loop_body_partition_outcome:
  assumes "loop_body ext options record = (ev, outcome)"
    and "Call_structurePartition \<in> set ev"
  shows "\<exists>cs. outcome = map_sum id Some (structurePartition ext (folded_motif record cs))"
proof (cases "assemble ext options record")
  case (Pair ev' o')
  have "ev = PrintHeader ac ident # ev' \<Longrightarrow> Call_structurePartition \<in> set ev'" for ac ident
    using assms(2) by auto
  with assms Pair assemble_partition_outcome [OF Pair] show ?thesis
    unfolding loop_body_eq
    by (auto split: option.splits list.splits if_splits)
qed

lemma loop_body_partition_fails:
  "loop_body example_ext_partition_fails plain_options family_A =
     ([PrintHeader ''RF00001'' ''familyA'', Call_getConsensusStructure RNALibFold,
       Call_structurePartition], Inl PartitionInvariantViolation)"
  by (simp add: body_defs example_defs example_partition_fails_def
      example_ext_partition_fails_def)

lemma example_profile:
  "profile_at [(1, 4), (0, 5)] [9, 9, 9, 9, 9, 9 :: nat] 5
     = [(Stem, [(0, 1), (4, 5)]), (HairpinLoop, [(2, 3)])]"
  by code_simp

lemma graphs_sized_not_built:
  assumes "loop_body ext options record = (ev, Inr (Some rna_motif))"
  shows "filter is_createInteractions_call ev = [] \<and>
         interaction_loop (seqences record) 0 (init_motif record)
           = (int (length (seqences record)), init_motif record) \<and>
         (\<exists>cs. structurePartition ext (folded_motif record cs) = Inr rna_motif \<and>
            interactionGraphs (folded_motif record cs)
              = replicate (length (seqences record)) [] \<and>
            interactionPairs (folded_motif record cs)
              = replicate (length (seqences record)) []) \<and>
         ((\<forall>m m'. structurePartition ext m = Inr m' \<longrightarrow>
              interactionGraphs m' = interactionGraphs m \<and>
              interactionPairs m' = interactionPairs m) \<longrightarrow>
          interactionGraphs rna_motif = replicate (length (seqences record)) [] \<and>
          interactionPairs rna_motif = replicate (length (seqences record)) [])"
proof -
  have calls: "filter is_createInteractions_call ev = []"
    using assms by (rule loop_body_no_createInteractions)
  have loop: "interaction_loop (seqences record) 0 (init_motif record)
           = (int (length (seqences record)), init_motif record)"
    using interaction_loop_count [of "seqences record" 0 "init_motif record"]
      interaction_loop_motif [of "seqences record" 0 "init_motif record"]
    by (cases "interaction_loop (seqences record) 0 (init_motif record)") simp
  from loop_body_SomeD [OF assms] obtain ev' where
    "assemble ext options record = (ev', Inr rna_motif)" by blast
  from assemble_InrD [OF this] obtain cs where
    part: "structurePartition ext (folded_motif record cs) = Inr rna_motif" by blast
  have sized: "interactionGraphs (folded_motif record cs)
              = replicate (length (seqences record)) []"
    "interactionPairs (folded_motif record cs) = replicate (length (seqences record)) []"
    by (simp_all add: folded_motif_def)
  have kept: "interactionGraphs rna_motif = replicate (length (seqences record)) [] \<and>
          interactionPairs rna_motif = replicate (length (seqences record)) []"
    if "\<forall>m m'. structurePartition ext m = Inr m' \<longrightarrow>
              interactionGraphs m' = interactionGraphs m \<and>
              interactionPairs m' = interactionPairs m"
    using that part sized by metis
  from calls loop part sized kept show ?thesis by blast
qed


section \<open>The claims\<close>

subsection \<open>C1\<close>

text \<open>
  C1 (as amended). Nothing catches an exception of the stages. When an iteration has
  passed the header reads and the length check and the Constraint Translator, the
  Structure Predictor or the Structure Partitioner throws, the iteration ends with that
  exception, it stores no motif, and the loop over the families ends with an exception
  instead of a result collection.
\<close>

theorem C1_stage_exceptions_propagate:
  assumes "header record ''AC'' = Some ac" and "header record ''ID'' = Some ident"
    and "seqences record = first # rest" and "seq_len_of (snd first) \<le> 1000"
    and "(\<exists>ss. constrain options \<and> seqence_information record ''SS_cons'' = Some ss \<and>
            WUSStoPseudoBracket ext ss = Inl e) \<or>
         (\<exists>ev1 ev2 c. constraint_stage ext options record = (ev1, Inr c) \<and>
            debug_stage ext record = (ev2, Inr ()) \<and>
            getConsensusStructure ext record [] c
              (if pseudoknot options then IPknotFold else RNALibFold) = Inl e) \<or>
         (\<exists>ev1 ev2 c cs. constraint_stage ext options record = (ev1, Inr c) \<and>
            debug_stage ext record = (ev2, Inr ()) \<and>
            getConsensusStructure ext record [] c
              (if pseudoknot options then IPknotFold else RNALibFold) = Inr cs \<and>
            structurePartition ext (folded_motif record cs) = Inl e)"
  shows "snd (loop_body ext options record) = Inl e \<and>
         (records ! k = record \<longrightarrow> loop_iteration ext options records k st = Inl e) \<and>
         (k < length records \<and> records ! k = record \<longrightarrow>
            isl (main_loop ext options records))"
proof -
  have "snd (assemble ext options record) = Inl e"
    using assms(5)
  proof (elim disjE exE conjE)
    fix ss
    assume "constrain options" "seqence_information record ''SS_cons'' = Some ss"
      "WUSStoPseudoBracket ext ss = Inl e"
    then have "constraint_stage ext options record = ([Call_WUSStoPseudoBracket ss], Inl e)"
      by (simp add: constraint_stage_def map_at_def)
    then show ?thesis by (simp add: assemble_eq)
  next
    fix ev1 ev2 c
    assume "constraint_stage ext options record = (ev1, Inr c)"
      "debug_stage ext record = (ev2, Inr ())"
      "getConsensusStructure ext record [] c
         (if pseudoknot options then IPknotFold else RNALibFold) = Inl e"
    then show ?thesis by (simp add: assemble_eq fold_tag_of_def)
  next
    fix ev1 ev2 c cs
    assume "constraint_stage ext options record = (ev1, Inr c)"
      "debug_stage ext record = (ev2, Inr ())"
      "getConsensusStructure ext record [] c
         (if pseudoknot options then IPknotFold else RNALibFold) = Inr cs"
      "structurePartition ext (folded_motif record cs) = Inl e"
    then show ?thesis by (simp add: assemble_eq fold_tag_of_def)
  qed
  then have body: "snd (loop_body ext options record) = Inl e"
    using assms(1-4) unfolding loop_body_eq by simp
  have it: "loop_iteration ext options records k st = Inl e" if "records ! k = record"
    using body that
    by (cases "loop_body ext options record") (simp add: loop_iteration_def)
  have "isl (main_loop ext options records)" if "k < length records" "records ! k = record"
    using that body by (intro main_loop_error [of k]) simp_all
  with body it show ?thesis by blast
qed

text \<open>
  C1, the claim as stated, fails: with a Structure Predictor that throws, the loop over
  the batch of a skipped family and \<open>family_A\<close> ends with the predictor's exception.
\<close>

theorem C1_counterexample:
  "main_loop example_ext_fold_fails plain_options [family_long_first, family_A]
     = Inl (OtherError ''fold'')"
  by (rule main_loop_fold_fails)

theorem C1_stage_exceptions_propagate_witness:
  "header family_A ''AC'' = Some ''RF00001'' \<and> header family_A ''ID'' = Some ''familyA'' \<and>
   seqences family_A = (''seq1'', ''ACGU'') # [(''seq2'', ''GCGC'')] \<and>
   seq_len_of ''ACGU'' \<le> 1000 \<and>
   constraint_stage example_ext_fold_fails plain_options family_A = ([], Inr None) \<and>
   debug_stage example_ext_fold_fails family_A = ([], Inr ()) \<and>
   getConsensusStructure example_ext_fold_fails family_A [] None RNALibFold
     = Inl (OtherError ''fold'') \<and>
   snd (loop_body example_ext_fold_fails plain_options family_A) = Inl (OtherError ''fold'') \<and>
   loop_iteration example_ext_fold_fails plain_options [family_long_first, family_A] 1
     (initial_state [family_long_first, family_A]) = Inl (OtherError ''fold'') \<and>
   isl (main_loop example_ext_fold_fails plain_options [family_long_first, family_A])"
proof -
  have h: "header family_A ''AC'' = Some ''RF00001''" "header family_A ''ID'' = Some ''familyA''"
    "seqences family_A = (''seq1'', ''ACGU'') # [(''seq2'', ''GCGC'')]"
    "seq_len_of (snd (''seq1'', ''ACGU'')) \<le> 1000"
    by (simp_all add: example_defs example_ext_fold_fails_def example_fold_fails_def seq_len_of_def)
  have s: "constraint_stage example_ext_fold_fails plain_options family_A = ([], Inr None)"
    "debug_stage example_ext_fold_fails family_A = ([], Inr ())"
    "getConsensusStructure example_ext_fold_fails family_A [] None
       (if pseudoknot plain_options then IPknotFold else RNALibFold) = Inl (OtherError ''fold'')"
    by (simp_all add: constraint_stage_def debug_stage_def example_defs example_ext_fold_fails_def example_fold_fails_def)
  have p: "pseudoknot plain_options = False"
    by (simp add: example_defs example_ext_fold_fails_def example_fold_fails_def)
  have k: "1 < length [family_long_first, family_A] \<and> [family_long_first, family_A] ! 1 = family_A"
    by simp
  from s have d: "(\<exists>ss. constrain plain_options \<and> seqence_information family_A ''SS_cons'' = Some ss \<and>
            WUSStoPseudoBracket example_ext_fold_fails ss = Inl (OtherError ''fold'')) \<or>
         (\<exists>ev1 ev2 c. constraint_stage example_ext_fold_fails plain_options family_A = (ev1, Inr c) \<and>
            debug_stage example_ext_fold_fails family_A = (ev2, Inr ()) \<and>
            getConsensusStructure example_ext_fold_fails family_A [] c
              (if pseudoknot plain_options then IPknotFold else RNALibFold) = Inl (OtherError ''fold'')) \<or>
         (\<exists>ev1 ev2 c cs. constraint_stage example_ext_fold_fails plain_options family_A = (ev1, Inr c) \<and>
            debug_stage example_ext_fold_fails family_A = (ev2, Inr ()) \<and>
            getConsensusStructure example_ext_fold_fails family_A [] c
              (if pseudoknot plain_options then IPknotFold else RNALibFold) = Inr cs \<and>
            structurePartition example_ext_fold_fails (folded_motif family_A cs) = Inl (OtherError ''fold''))"
    by blast
  note t = C1_stage_exceptions_propagate [OF h d, of "[family_long_first, family_A]" 1
      "initial_state [family_long_first, family_A]"]
  from t k have "snd (loop_body example_ext_fold_fails plain_options family_A) = Inl (OtherError ''fold'') \<and>
   loop_iteration example_ext_fold_fails plain_options [family_long_first, family_A] 1
     (initial_state [family_long_first, family_A]) = Inl (OtherError ''fold'') \<and>
   isl (main_loop example_ext_fold_fails plain_options [family_long_first, family_A])"
    by blast
  with h s p show ?thesis by simp
qed

subsection \<open>C2\<close>

text \<open>
  C2 fails on the code. \<open>family_A\<close> has two sequences and its motif is assembled, yet the
  iteration makes no call of the Interaction Graph Builder (the source has the call
  commented out under its comment "build interaction graphs for each sequence"), and
  both interaction graphs and both pair lists of the stored motif are empty although the
  consensus structure has a base pair.
\<close>

theorem C2_builder_not_called:
  "snd (loop_body example_ext plain_options family_A) = Inr (Some example_motif_A) \<and>
   length (seqences family_A) = 2 \<and>
   length (filter is_createInteractions_call
             (fst (loop_body example_ext plain_options family_A))) = 0 \<and>
   interactionGraphs example_motif_A = [[], []] \<and>
   interactionPairs example_motif_A = [[], []] \<and>
   consensusStructure example_motif_A = [(0, 3)]"
  by (simp add: loop_body_family_A) (simp add: example_defs)

subsection \<open>C3\<close>

text \<open>
  C3. Take a record whose header reads succeed (it has the entries \<open>AC\<close> and \<open>ID\<close>) and
  whose sequences are the rows of one alignment: at least one, all with the same number
  of columns, fewer than \<open>2^31\<close>. If its longest sequence exceeds the ceiling of 1000
  columns the family is skipped and this is no error: the iteration prints the header
  line and the skip message, calls no stage, stores nothing, and when the loop completes
  the result collection holds the default motif at the family's index. If no sequence
  exceeds the ceiling the iteration goes on to the assembly.
\<close>

theorem C3_size_ceiling:
  assumes "header record ''AC'' = Some ac" and "header record ''ID'' = Some ident"
    and "seqences record = first # rest"
    and "list_all (\<lambda>s. length (snd s) = columns) (seqences record)"
    and "columns < 2 ^ 31"
  shows "(1000 < longest_sequence record \<longrightarrow>
            loop_body ext options record =
              ([PrintHeader ac ident, PrintSkipping (int (longest_sequence record))],
               Inr None) \<and>
            filter is_consensus_call (fst (loop_body ext options record)) = [] \<and>
            (records ! k = record \<longrightarrow>
               loop_iteration ext options records k st =
                 Inr (st\<lparr>out := out st @
                        [PrintHeader ac ident,
                         PrintSkipping (int (longest_sequence record))]\<rparr>)) \<and>
            (k < length records \<and> records ! k = record \<and>
             main_loop ext options records = Inr st' \<longrightarrow>
               motifs st' ! k = default_Motif)) \<and>
         (longest_sequence record \<le> 1000 \<longrightarrow>
            loop_body ext options record =
              (PrintHeader ac ident # fst (assemble ext options record),
               map_sum id Some (snd (assemble ext options record))))"
proof (intro conjI impI)
  note same = longest_sequence_same_length [OF assms(3,4)]
  have len: "seq_len_of (snd first) = int (longest_sequence record)"
    using assms(5) same seq_len_of_small [of "snd first"] by simp
  {
    assume "longest_sequence record \<le> 1000"
    then show "loop_body ext options record =
              (PrintHeader ac ident # fst (assemble ext options record),
               map_sum id Some (snd (assemble ext options record)))"
      using assms(1-3) len unfolding loop_body_eq by simp
  }
  assume long: "1000 < longest_sequence record"
  show body: "loop_body ext options record =
      ([PrintHeader ac ident, PrintSkipping (int (longest_sequence record))], Inr None)"
    using assms(1-3) len long unfolding loop_body_eq by simp
  then show "filter is_consensus_call (fst (loop_body ext options record)) = []"
    by simp
  {
    assume "records ! k = record"
    then show "loop_iteration ext options records k st =
                 Inr (st\<lparr>out := out st @
                        [PrintHeader ac ident,
                         PrintSkipping (int (longest_sequence record))]\<rparr>)"
      using body by (simp add: loop_iteration_def)
  }
  assume run: "k < length records \<and> records ! k = record \<and>
             main_loop ext options records = Inr st'"
  then have "run_schedule ext options records [0..<length records] (initial_state records)
      = Inr st'"
    by (simp add: main_loop_def)
  then have "motifs st' = map (family_result ext options) records"
    by (rule run_schedule_motifs) simp
  then have "motifs st' ! k = family_result ext options record"
    using run by simp
  also have "\<dots> = default_Motif"
    using body by (simp add: family_result_def)
  finally show "motifs st' ! k = default_Motif" .
qed

theorem C3_size_ceiling_witness:
  "header family_long_first ''AC'' = Some ''RF00001'' \<and>
   header family_long_first ''ID'' = Some ''familyA'' \<and>
   seqences family_long_first
     = (''seq1'', replicate 1500 CHR ''A'') # [(''seq2'', replicate 1500 CHR ''C'')] \<and>
   map length (map snd (seqences family_long_first)) = [1500, 1500] \<and>
   longest_sequence family_long_first = 1500 \<and>
   loop_body example_ext plain_options family_long_first =
     ([PrintHeader ''RF00001'' ''familyA'', PrintSkipping 1500], Inr None) \<and>
   example_batch ! 1 = family_long_first \<and>
   main_loop example_ext plain_options example_batch = Inr example_state_2 \<and>
   motifs example_state_2 ! 1 = default_Motif \<and>
   map length (map snd (seqences family_A)) = [4, 4] \<and>
   longest_sequence family_A = 4 \<and>
   loop_body example_ext plain_options family_A =
     (PrintHeader ''RF00001'' ''familyA'' # fst (assemble example_ext plain_options family_A),
      map_sum id Some (snd (assemble example_ext plain_options family_A)))"
proof -
  have h: "header family_long_first ''AC'' = Some ''RF00001''"
    "header family_long_first ''ID'' = Some ''familyA''"
    "seqences family_long_first
       = (''seq1'', replicate 1500 CHR ''A'') # [(''seq2'', replicate 1500 CHR ''C'')]"
    "list_all (\<lambda>s. length (snd s) = 1500) (seqences family_long_first)"
    "(1500 :: nat) < 2 ^ 31"
    by (simp_all add: example_defs)
  have g: "header family_A ''AC'' = Some ''RF00001''"
    "header family_A ''ID'' = Some ''familyA''"
    "seqences family_A = (''seq1'', ''ACGU'') # [(''seq2'', ''GCGC'')]"
    "list_all (\<lambda>s. length (snd s) = 4) (seqences family_A)"
    "(4 :: nat) < 2 ^ 31"
    by (simp_all add: example_defs)
  have l: "longest_sequence family_long_first = 1500" "longest_sequence family_A = 4"
    by (simp_all add: longest_sequence_def example_defs)
  have m: "map length (map snd (seqences family_long_first)) = [1500, 1500]"
    "map length (map snd (seqences family_A)) = [4, 4]"
    by (simp_all add: example_defs)
  have k: "1 < length example_batch \<and> example_batch ! 1 = family_long_first"
    by (simp add: example_defs)
  note a = C3_size_ceiling [OF h, of example_ext plain_options example_batch 1
      example_state_0 example_state_2]
  note b = C3_size_ceiling [OF g, of example_ext plain_options]
  have a': "loop_body example_ext plain_options family_long_first =
       ([PrintHeader ''RF00001'' ''familyA'',
         PrintSkipping (int (longest_sequence family_long_first))], Inr None) \<and>
     motifs example_state_2 ! 1 = default_Motif"
    using a l(1) k example_main_loop by simp
  have b': "loop_body example_ext plain_options family_A =
     (PrintHeader ''RF00001'' ''familyA'' # fst (assemble example_ext plain_options family_A),
      map_sum id Some (snd (assemble example_ext plain_options family_A)))"
    using b l(2) by simp
  from a' l(1) have a'': "loop_body example_ext plain_options family_long_first =
       ([PrintHeader ''RF00001'' ''familyA'', PrintSkipping 1500], Inr None)"
    by simp
  from h(1-3) m l k a' a'' b' example_main_loop show ?thesis
    by blast
qed

subsection \<open>C4\<close>

text \<open>
  C4 (as amended). After the loop over the family directories the script echoes one
  closing line with a single value: the shell variable \<^verbatim>\<open>number\<close> after one increment for
  each family that passed the presence test; a family whose alignment file is missing or
  empty adds nothing to it. Where the variable is not set in the script's environment
  and at least one family passed the test, the value is the number of the families that
  passed it. Nothing else is counted. The program itself prints only a newline after
  its loop and leaves the result collection as the loop made it.
\<close>

theorem C4_single_count_of_present_families:
  "batch_script arith inherited nonempty_file fulls =
     MoveFiles # concat (map (family_lines nonempty_file) fulls) @
     [FamiliesProcessed
        ((increment arith ^^ length (present_families nonempty_file fulls)) inherited)] \<and>
   (inherited = Unset \<and> present_families nonempty_file fulls \<noteq> [] \<longrightarrow>
      last (batch_script arith inherited nonempty_file fulls) =
        FamiliesProcessed
          (Counted (word_of_nat (length (present_families nonempty_file fulls))))) \<and>
   (main_run ext options records = Inr st \<longrightarrow>
      (\<exists>st0. main_loop ext options records = Inr st0 \<and> motifs st = motifs st0 \<and>
         out st = out st0 @ [PrintEndl]))"
proof (intro conjI impI)
  show "batch_script arith inherited nonempty_file fulls =
     MoveFiles # concat (map (family_lines nonempty_file) fulls) @
     [FamiliesProcessed
        ((increment arith ^^ length (present_families nonempty_file fulls)) inherited)]"
    by (rule batch_script_eq)
next
  assume a: "inherited = Unset \<and> present_families nonempty_file fulls \<noteq> []"
  then have "0 < length (present_families nonempty_file fulls)" by simp
  then show "last (batch_script arith inherited nonempty_file fulls) =
        FamiliesProcessed
          (Counted (word_of_nat (length (present_families nonempty_file fulls))))"
    using a by (simp add: batch_script_eq increment_funpow_Unset)
next
  assume "main_run ext options records = Inr st"
  then show "\<exists>st0. main_loop ext options records = Inr st0 \<and> motifs st = motifs st0 \<and>
         out st = out st0 @ [PrintEndl]"
    by (auto simp: main_run_def split: sum.splits)
qed

text \<open>
  C4, the claim as stated, fails: a batch with no skipped family and a batch with one
  skipped family end with the same closing line of the script, which has one number and
  no counts of assembled, degraded or skipped families; and the program run on a batch
  whose only family is skipped by the length check prints no count at all.
\<close>

theorem C4_counterexample:
  "last (batch_script example_arith Unset example_files [''/data/fam1''])
     = FamiliesProcessed (Counted 1) \<and>
   last (batch_script example_arith Unset example_files [''/data/fam1'', ''/data/fam2''])
     = FamiliesProcessed (Counted 1) \<and>
   length (absent_families example_files [''/data/fam1'']) = 0 \<and>
   length (absent_families example_files [''/data/fam1'', ''/data/fam2'']) = 1 \<and>
   main_run example_ext plain_options [family_long_first] = Inr example_state_skipped \<and>
   out example_state_skipped
     = [PrintHeader ''RF00001'' ''familyA'', PrintSkipping 1500, PrintEndl]"
  by (simp add: example_script_one example_script_two example_present
      example_main_run_skipped) (simp add: example_state_skipped_def)

theorem C4_single_count_of_present_families_witness:
  "present_families example_files [''/data/fam1'', ''/data/fam2''] = [''/data/fam1''] \<and>
   batch_script example_arith Unset example_files [''/data/fam1'', ''/data/fam2''] =
     [MoveFiles, GetsProcessed ''fam1'', GetsProcessed ''fam2'', NoInfernalFile,
      FamiliesProcessed (Counted 1)] \<and>
   last (batch_script example_arith Unset example_files [''/data/fam1'', ''/data/fam2''])
     = FamiliesProcessed (Counted (word_of_nat (length [''/data/fam1'']))) \<and>
   batch_script example_arith (Inherited ''41'') example_files [''/data/fam1''] =
     [MoveFiles, GetsProcessed ''fam1'', FamiliesProcessed (Counted 42)] \<and>
   main_run example_ext plain_options example_batch
     = Inr (example_state_2\<lparr>out := out example_state_2 @ [PrintEndl]\<rparr>) \<and>
   main_loop example_ext plain_options example_batch = Inr example_state_2"
proof -
  have p: "(Unset :: shell_value) = Unset \<and>
      present_families example_files [''/data/fam1'', ''/data/fam2''] \<noteq> []"
    by (simp add: example_present)
  have r: "main_run example_ext plain_options example_batch
     = Inr (example_state_2\<lparr>out := out example_state_2 @ [PrintEndl]\<rparr>)"
    by (simp add: main_run_def example_main_loop)
  note t = C4_single_count_of_present_families [of example_arith Unset example_files
      "[''/data/fam1'', ''/data/fam2'']" example_ext plain_options example_batch
      "example_state_2\<lparr>out := out example_state_2 @ [PrintEndl]\<rparr>"]
  from t p have "last (batch_script example_arith Unset example_files
        [''/data/fam1'', ''/data/fam2'']) =
      FamiliesProcessed (Counted (word_of_nat (length (present_families example_files
           [''/data/fam1'', ''/data/fam2'']))))"
    by blast
  then have c: "last (batch_script example_arith Unset example_files
        [''/data/fam1'', ''/data/fam2''])
     = FamiliesProcessed (Counted (word_of_nat (length [''/data/fam1''])))"
    by (simp only: example_present)
  from t r have "\<exists>st0. main_loop example_ext plain_options example_batch = Inr st0"
    by blast
  with c r example_main_loop example_script_two example_script_inherited example_present(1)
  show ?thesis by blast
qed

subsection \<open>C5\<close>

text \<open>
  C5. The result collection has one element per input record before the loop starts and
  keeps that length through every iteration; iteration \<open>k\<close> changes no element other than
  the one at index \<open>k\<close>, so the writes of different iterations never meet; and when the loop
  completes, the element at each index is the result of the record at that index.
\<close>

theorem C5_index_addressed_writes:
  "length (motifs (initial_state records)) = length records \<and>
   (loop_iteration ext options records k st = Inr st' \<longrightarrow>
      length (motifs st') = length (motifs st) \<and>
      (\<forall>j. j \<noteq> k \<longrightarrow> motifs st' ! j = motifs st ! j)) \<and>
   (main_loop ext options records = Inr st'' \<longrightarrow>
      length (motifs st'') = length records \<and>
      (\<forall>j. j < length records \<longrightarrow>
         motifs st'' ! j = family_result ext options (records ! j)))"
proof (intro conjI impI allI)
  show "length (motifs (initial_state records)) = length records"
    by (simp add: initial_state_def)
next
  assume "loop_iteration ext options records k st = Inr st'"
  then show "length (motifs st') = length (motifs st)"
    by (rule loop_iteration_length)
next
  fix j
  assume "loop_iteration ext options records k st = Inr st'" and "j \<noteq> k"
  then show "motifs st' ! j = motifs st ! j"
    by (rule loop_iteration_frame)
next
  assume "main_loop ext options records = Inr st''"
  then have "motifs st'' = map (family_result ext options) records"
    unfolding main_loop_def by (rule run_schedule_motifs) simp
  then show "length (motifs st'') = length records"
    by simp
next
  fix j
  assume run: "main_loop ext options records = Inr st''" and j: "j < length records"
  from run have "motifs st'' = map (family_result ext options) records"
    unfolding main_loop_def by (rule run_schedule_motifs) simp
  then show "motifs st'' ! j = family_result ext options (records ! j)"
    using j by simp
qed

theorem C5_index_addressed_writes_witness:
  "loop_iteration example_ext plain_options example_batch 0 example_state_0 = Inr example_state_1 \<and>
   main_loop example_ext plain_options example_batch = Inr example_state_2 \<and>
   length (motifs example_state_0) = 2 \<and>
   length (motifs example_state_1) = 2 \<and>
   motifs example_state_1 ! 1 = motifs example_state_0 ! 1 \<and>
   length (motifs example_state_2) = 2 \<and>
   motifs example_state_2 ! 0 = family_result example_ext plain_options family_A \<and>
   motifs example_state_2 ! 1 = family_result example_ext plain_options family_long_first"
  using C5_index_addressed_writes [of example_batch example_ext plain_options 0
      example_state_0 example_state_1 example_state_2]
    example_iteration_0 example_main_loop
  by (simp add: example_batch_def example_state_0_def)

subsection \<open>C6\<close>

text \<open>
  C6. In every iteration at most one call of the Structure Predictor is made, and its tag is
  the one the pseudoknot flag selects: \<open>IPknotFold\<close> when the flag is set, \<open>RNALibFold\<close>
  otherwise. An iteration that assembles a motif made exactly one such call, and the
  consensus structure of the motif handed to the Structure Partitioner is what that call
  returned.
\<close>

theorem C6_backend_selected_by_flag:
  "loop_body ext options record = (ev, outcome) \<longrightarrow>
     (\<forall>tag. Call_getConsensusStructure tag \<in> set ev \<longrightarrow>
        tag = (if pseudoknot options then IPknotFold else RNALibFold)) \<and>
     length (filter is_consensus_call ev) \<le> 1 \<and>
     (\<forall>rna_motif. outcome = Inr (Some rna_motif) \<longrightarrow>
        filter is_consensus_call ev =
          [Call_getConsensusStructure (if pseudoknot options then IPknotFold else RNALibFold)] \<and>
        (\<exists>c cs. getConsensusStructure ext record [] c
                   (if pseudoknot options then IPknotFold else RNALibFold) = Inr cs \<and>
                 structurePartition ext (folded_motif record cs) = Inr rna_motif))"
proof (intro impI conjI allI)
  fix tag
  assume body: "loop_body ext options record = (ev, outcome)"
    and "Call_getConsensusStructure tag \<in> set ev"
  then have "Call_getConsensusStructure tag \<in> set (filter is_consensus_call ev)"
    by simp
  with loop_body_consensus_calls [OF body]
  show "tag = (if pseudoknot options then IPknotFold else RNALibFold)"
    by (auto simp: fold_tag_of_def simp del: set_filter)
next
  assume body: "loop_body ext options record = (ev, outcome)"
  from loop_body_consensus_calls [OF body]
  show "length (filter is_consensus_call ev) \<le> 1"
    by auto
next
  fix rna_motif
  assume body: "loop_body ext options record = (ev, outcome)"
    and out: "outcome = Inr (Some rna_motif)"
  from loop_body_consensus_calls [OF body] out
  show "filter is_consensus_call ev =
          [Call_getConsensusStructure (if pseudoknot options then IPknotFold else RNALibFold)]"
    by (auto simp: fold_tag_of_def)
next
  fix rna_motif
  assume body: "loop_body ext options record = (ev, outcome)"
    and out: "outcome = Inr (Some rna_motif)"
  from loop_body_SomeD [OF body [unfolded out]] obtain ev' where
    "assemble ext options record = (ev', Inr rna_motif)" by blast
  from assemble_InrD [OF this]
  show "\<exists>c cs. getConsensusStructure ext record [] c
                   (if pseudoknot options then IPknotFold else RNALibFold) = Inr cs \<and>
                 structurePartition ext (folded_motif record cs) = Inr rna_motif"
    unfolding fold_tag_of_def by blast
qed

theorem C6_backend_selected_by_flag_witness:
  "loop_body example_ext pseudoknot_options family_A =
     (family_A_events_pseudoknot, Inr (Some example_motif_A_pseudoknot)) \<and>
   Call_getConsensusStructure IPknotFold \<in> set family_A_events_pseudoknot \<and>
   pseudoknot pseudoknot_options \<and>
   filter is_consensus_call family_A_events_pseudoknot = [Call_getConsensusStructure IPknotFold] \<and>
   getConsensusStructure example_ext family_A [] None IPknotFold = Inr [(0, 2), (1, 3)] \<and>
   structurePartition example_ext (folded_motif family_A [(0, 2), (1, 3)])
     = Inr example_motif_A_pseudoknot"
  using C6_backend_selected_by_flag [of example_ext pseudoknot_options family_A
      family_A_events_pseudoknot "Inr (Some example_motif_A_pseudoknot)"]
    loop_body_family_A_pseudoknot
  by (simp add: example_defs family_A_events_pseudoknot_def example_motif_A_pseudoknot_def
      folded_motif_def)

subsection \<open>C8\<close>

text \<open>
  C8. The Structure Partitioner of the specification never reports the Fatal error: for
  every consensus structure, column statistics and list of cutoffs it returns one
  profile per cutoff, and in the profile of every cutoff each column of the alignment
  is assigned to exactly one element: the columns of the elements, taken together, are
  the full column range with no column twice. In the program, once an iteration has
  called the partitioner, its outcome is the partitioner's: an error of the partitioner
  ends the iteration with that error, never as a skipped family, and ends the loop
  over the batch.
\<close>

theorem C8_partition_covers_columns:
  "partition_spec consensus columnStats cutoffs
     = Inr (map (profile_at consensus columnStats) cutoffs) \<and>
   partition_at consensus columnStats cutoff = Inr (profile_at consensus columnStats cutoff) \<and>
   assigned_once (profile_at consensus columnStats cutoff) (length columnStats) \<and>
   distinct (concat (map columns_of (profile_at consensus columnStats cutoff))) \<and>
   set (concat (map columns_of (profile_at consensus columnStats cutoff)))
     = {0..<length columnStats} \<and>
   (loop_body ext options record = (ev, outcome) \<and> Call_structurePartition \<in> set ev \<longrightarrow>
      (\<exists>cs. outcome = map_sum id Some (structurePartition ext (folded_motif record cs))) \<and>
      (isl outcome \<and> k < length records \<and> records ! k = record \<longrightarrow>
         isl (main_loop ext options records)))"
proof (intro conjI impI)
  show "partition_spec consensus columnStats cutoffs
     = Inr (map (profile_at consensus columnStats) cutoffs)"
    by (rule partition_spec_ok)
  show "partition_at consensus columnStats cutoff = Inr (profile_at consensus columnStats cutoff)"
    by (rule partition_at_ok)
  show "assigned_once (profile_at consensus columnStats cutoff) (length columnStats)"
    by (rule profile_at_assigned_once)
  show "distinct (concat (map columns_of (profile_at consensus columnStats cutoff)))"
    by (rule profile_at_cover(1))
  show "set (concat (map columns_of (profile_at consensus columnStats cutoff)))
     = {0..<length columnStats}"
    by (rule profile_at_cover(2))
next
  assume "loop_body ext options record = (ev, outcome) \<and> Call_structurePartition \<in> set ev"
  then show "\<exists>cs. outcome = map_sum id Some (structurePartition ext (folded_motif record cs))"
    using loop_body_partition_outcome by blast
next
  assume body: "loop_body ext options record = (ev, outcome) \<and> Call_structurePartition \<in> set ev"
    and "isl outcome \<and> k < length records \<and> records ! k = record"
  then show "isl (main_loop ext options records)"
    by (intro main_loop_error [of k]) simp_all
qed

theorem C8_partition_covers_columns_witness:
  "partition_spec [(1, 4), (0, 5)] [9, 9, 9, 9, 9, 9 :: nat] [5]
     = Inr [[(Stem, [(0, 1), (4, 5)]), (HairpinLoop, [(2, 3)])]] \<and>
   assigned_once [(Stem, [(0, 1), (4, 5)]), (HairpinLoop, [(2, 3)])] 6 \<and>
   concat (map columns_of [(Stem, [(0, 1), (4, 5)]), (HairpinLoop, [(2, 3)])])
     = [0, 1, 4, 5, 2, 3] \<and>
   loop_body example_ext_partition_fails plain_options family_A =
     ([PrintHeader ''RF00001'' ''familyA'', Call_getConsensusStructure RNALibFold,
       Call_structurePartition], Inl PartitionInvariantViolation) \<and>
   Call_structurePartition \<in> set [PrintHeader ''RF00001'' ''familyA'',
       Call_getConsensusStructure RNALibFold, Call_structurePartition] \<and>
   isl (main_loop example_ext_partition_fails plain_options [family_A])"
proof -
  note t = C8_partition_covers_columns [of "[(1, 4), (0, 5)]" "[9, 9, 9, 9, 9, 9 :: nat]" "[5]"
      5 example_ext_partition_fails plain_options family_A
      "[PrintHeader ''RF00001'' ''familyA'', Call_getConsensusStructure RNALibFold,
        Call_structurePartition]" "Inl PartitionInvariantViolation" 0 "[family_A]"]
  have c: "Call_structurePartition \<in> set [PrintHeader ''RF00001'' ''familyA'',
       Call_getConsensusStructure RNALibFold, Call_structurePartition]"
    by simp
  have k: "isl (Inl PartitionInvariantViolation :: error + Motif option) \<and>
      0 < length [family_A] \<and> [family_A] ! 0 = family_A"
    by simp
  from t loop_body_partition_fails c k
  have m: "isl (main_loop example_ext_partition_fails plain_options [family_A])"
    by blast
  from t have a: "partition_spec [(1, 4), (0, 5)] [9, 9, 9, 9, 9, 9 :: nat] [5]
     = Inr (map (profile_at [(1, 4), (0, 5)] [9, 9, 9, 9, 9, 9 :: nat]) [5])"
    by blast
  have b: "map (profile_at [(1, 4), (0, 5)] [9, 9, 9, 9, 9, 9 :: nat]) [5]
     = [[(Stem, [(0, 1), (4, 5)]), (HairpinLoop, [(2, 3)])]]"
    by (simp only: list.map example_profile)
  from t have o: "assigned_once (profile_at [(1, 4), (0, 5)] [9, 9, 9, 9, 9, 9 :: nat] 5)
       (length [9, 9, 9, 9, 9, 9 :: nat])"
    by blast
  have len: "length [9, 9, 9, 9, 9, 9 :: nat] = 6"
    by simp
  have p: "partition_spec [(1, 4), (0, 5)] [9, 9, 9, 9, 9, 9 :: nat] [5]
     = Inr [[(Stem, [(0, 1), (4, 5)]), (HairpinLoop, [(2, 3)])]] \<and>
   assigned_once [(Stem, [(0, 1), (4, 5)]), (HairpinLoop, [(2, 3)])] 6"
    using a o by (simp only: b example_profile len)
  have "concat (map columns_of [(Stem, [(0, 1), (4, 5)]), (HairpinLoop, [(2, 3)])])
     = [0, 1, 4, 5, 2, 3]"
    by code_simp
  with p m c loop_body_partition_fails show ?thesis by blast
qed

subsection \<open>C9\<close>

text \<open>
  C9, the claim as stated, fails. The translator is called with the annotation alone:
  \<open>family_six_columns\<close> has six columns and an annotation of four characters, and in
  constrain mode it is translated and its motif assembled with no FormatError. And a
  FormatError of the translator is not turned into a skipped family: the annotation of
  \<open>family_unbalanced\<close> has unbalanced brackets, and the loop over it and \<open>family_A\<close> ends
  with the FormatError, \<open>family_A\<close> never being processed.
\<close>

theorem C9_counterexample:
  "map length (alignment family_six_columns) = [6, 6] \<and>
   seqence_information family_six_columns ''SS_cons'' = Some ''(..)'' \<and>
   loop_body example_ext constrain_options family_six_columns =
     ([PrintHeader ''RF00001'' ''familyA'', Call_WUSStoPseudoBracket ''(..)'',
       Call_getConsensusStructure RNALibFold, Call_structurePartition],
      Inr (Some example_motif_six_columns)) \<and>
   WUSStoPseudoBracket_spec ''((.)'' = Inl FormatError \<and>
   seqence_information family_unbalanced ''SS_cons'' = Some ''((.)'' \<and>
   main_loop example_ext constrain_options [family_unbalanced, family_A] = Inl FormatError"
proof -
  have t: "WUSStoPseudoBracket_spec ''((.)'' = Inl FormatError"
    by (simp add: WUSStoPseudoBracket_spec_def is_open_def is_close_def)
  have "loop_body example_ext constrain_options family_unbalanced =
     ([PrintHeader ''RF00001'' ''familyA'', Call_WUSStoPseudoBracket ''((.)''],
      Inl FormatError)"
    by (simp add: body_defs example_defs family_unbalanced_def t)
  then have "main_loop example_ext constrain_options [family_unbalanced, family_A]
      = Inl FormatError"
    by (simp add: main_loop_def loop_iteration_def initial_state_def upt_rec_numeral)
  with t loop_body_family_six_columns show ?thesis
    by (simp add: example_defs family_unbalanced_def family_six_columns_def)
qed

text \<open>
  C9 (as amended). The Constraint Translator is given the annotation alone, so what the
  constraint stage does with a record depends only on the record's annotation and not on
  the alignment's column count. The translator of the specification fails with a
  FormatError exactly when the brackets of the annotation are unbalanced. In the program
  such a FormatError is not caught: an iteration in constrain mode whose translator call
  fails ends with the FormatError right after that call, and every run of the loop that
  includes this family ends with an exception, whatever the other families are.
\<close>

theorem C9_format_error_propagates:
  "(seqence_information record1 ''SS_cons'' = seqence_information record2 ''SS_cons'' \<longrightarrow>
      constraint_stage ext options record1 = constraint_stage ext options record2) \<and>
   (WUSStoPseudoBracket_spec annotation = Inl FormatError \<longleftrightarrow> \<not> balanced annotation) \<and>
   (header record ''AC'' = Some ac \<and> header record ''ID'' = Some ident \<and>
    seqences record = first # rest \<and> seq_len_of (snd first) \<le> 1000 \<and>
    constrain options \<and> seqence_information record ''SS_cons'' = Some ss \<and>
    WUSStoPseudoBracket ext ss = Inl FormatError \<longrightarrow>
      loop_body ext options record =
        ([PrintHeader ac ident, Call_WUSStoPseudoBracket ss], Inl FormatError) \<and>
      (k \<in> set sched \<and> records ! k = record \<longrightarrow>
         isl (run_schedule ext options records sched st)))"
proof (intro conjI impI)
  assume "seqence_information record1 ''SS_cons'' = seqence_information record2 ''SS_cons''"
  then show "constraint_stage ext options record1 = constraint_stage ext options record2"
    by (simp add: constraint_stage_def map_at_def)
next
  show "WUSStoPseudoBracket_spec annotation = Inl FormatError \<longleftrightarrow> \<not> balanced annotation"
    by (simp add: WUSStoPseudoBracket_spec_def translate_from_fails_iff)
next
  assume a: "header record ''AC'' = Some ac \<and> header record ''ID'' = Some ident \<and>
    seqences record = first # rest \<and> seq_len_of (snd first) \<le> 1000 \<and>
    constrain options \<and> seqence_information record ''SS_cons'' = Some ss \<and>
    WUSStoPseudoBracket ext ss = Inl FormatError"
  then have "constraint_stage ext options record
      = ([Call_WUSStoPseudoBracket ss], Inl FormatError)"
    by (simp add: constraint_stage_def map_at_def)
  then have "assemble ext options record = ([Call_WUSStoPseudoBracket ss], Inl FormatError)"
    by (simp add: assemble_eq)
  then show body: "loop_body ext options record =
        ([PrintHeader ac ident, Call_WUSStoPseudoBracket ss], Inl FormatError)"
    using a unfolding loop_body_eq by simp
  assume "k \<in> set sched \<and> records ! k = record"
  then show "isl (run_schedule ext options records sched st)"
    unfolding isl_run_schedule_iff using body by (intro bexI [of _ k]) simp_all
qed

theorem C9_format_error_propagates_witness:
  "seqence_information family_A ''SS_cons''
     = seqence_information family_six_columns ''SS_cons'' \<and>
   constraint_stage example_ext constrain_options family_A
     = constraint_stage example_ext constrain_options family_six_columns \<and>
   WUSStoPseudoBracket_spec ''((.)'' = Inl FormatError \<and> \<not> balanced ''((.)'' \<and>
   header family_unbalanced ''AC'' = Some ''RF00001'' \<and>
   header family_unbalanced ''ID'' = Some ''familyA'' \<and>
   seqences family_unbalanced = (''seq1'', ''ACGU'') # [(''seq2'', ''GCGC'')] \<and>
   seq_len_of ''ACGU'' \<le> 1000 \<and> constrain constrain_options \<and>
   seqence_information family_unbalanced ''SS_cons'' = Some ''((.)'' \<and>
   WUSStoPseudoBracket example_ext ''((.)'' = Inl FormatError \<and>
   loop_body example_ext constrain_options family_unbalanced =
     ([PrintHeader ''RF00001'' ''familyA'', Call_WUSStoPseudoBracket ''((.)''],
      Inl FormatError) \<and>
   isl (run_schedule example_ext constrain_options [family_A, family_unbalanced] [1, 0]
          (initial_state [family_A, family_unbalanced]))"
proof -
  have t: "WUSStoPseudoBracket_spec ''((.)'' = Inl FormatError"
    by (simp add: WUSStoPseudoBracket_spec_def is_open_def is_close_def)
  have e: "seqence_information family_A ''SS_cons''
     = seqence_information family_six_columns ''SS_cons''"
    by (simp add: example_defs family_six_columns_def)
  have h: "header family_unbalanced ''AC'' = Some ''RF00001'' \<and>
   header family_unbalanced ''ID'' = Some ''familyA'' \<and>
   seqences family_unbalanced = (''seq1'', ''ACGU'') # [(''seq2'', ''GCGC'')] \<and>
   seq_len_of (snd (''seq1'', ''ACGU'')) \<le> 1000 \<and> constrain constrain_options \<and>
   seqence_information family_unbalanced ''SS_cons'' = Some ''((.)'' \<and>
   WUSStoPseudoBracket example_ext ''((.)'' = Inl FormatError"
    using t by (simp add: example_defs family_unbalanced_def seq_len_of_def)
  have k: "1 \<in> set [1, 0 :: nat] \<and> [family_A, family_unbalanced] ! 1 = family_unbalanced"
    by simp
  note th = C9_format_error_propagates [of family_A family_six_columns example_ext
      constrain_options "''((.)''" family_unbalanced "''RF00001''"
      "''familyA''" "(''seq1'', ''ACGU'')" "[(''seq2'', ''GCGC'')]"
      "''((.)''" 1 "[1, 0]" "[family_A, family_unbalanced]"
      "initial_state [family_A, family_unbalanced]"]
  from th e have c: "constraint_stage example_ext constrain_options family_A
     = constraint_stage example_ext constrain_options family_six_columns"
    by blast
  from th t have nb: "\<not> balanced ''((.)''" by blast
  from th h k have "loop_body example_ext constrain_options family_unbalanced =
     ([PrintHeader ''RF00001'' ''familyA'', Call_WUSStoPseudoBracket ''((.)''],
      Inl FormatError) \<and>
   isl (run_schedule example_ext constrain_options [family_A, family_unbalanced] [1, 0]
          (initial_state [family_A, family_unbalanced]))"
    by blast
  with e c t nb h show ?thesis by simp
qed

subsection \<open>C10\<close>

text \<open>
  C10, the claim as stated, fails: in constrain mode a record whose first sequence is
  longer than the ceiling is skipped before \<open>SS_cons\<close> is read, so the loop over a batch
  with such a record completes although the record has no \<open>SS_cons\<close> annotation.
\<close>

theorem C10_counterexample:
  "constrain constrain_options \<and>
   seqence_information family_long_no_SS_cons ''SS_cons'' = None \<and>
   loop_body example_ext constrain_options family_long_no_SS_cons =
     ([PrintHeader ''RF00001'' ''familyA'', PrintSkipping 1500], Inr None) \<and>
   main_loop example_ext constrain_options [family_long_no_SS_cons] =
     Inr \<lparr>motifs = [default_Motif],
          out = [PrintHeader ''RF00001'' ''familyA'', PrintSkipping 1500]\<rparr>"
proof -
  have body: "loop_body example_ext constrain_options family_long_no_SS_cons =
     ([PrintHeader ''RF00001'' ''familyA'', PrintSkipping 1500], Inr None)"
    by (simp add: body_defs example_defs family_long_no_SS_cons_def)
  then have "main_loop example_ext constrain_options [family_long_no_SS_cons] =
     Inr \<lparr>motifs = [default_Motif],
          out = [PrintHeader ''RF00001'' ''familyA'', PrintSkipping 1500]\<rparr>"
    by (simp add: main_loop_def loop_iteration_def initial_state_def)
  with body show ?thesis
    by (simp add: example_defs family_long_no_SS_cons_def)
qed

text \<open>
  C10 (as amended). Every iteration first reads the header entries \<open>AC\<close> and \<open>ID\<close>: when
  either is missing the iteration ends with \<^verbatim>\<open>std::out_of_range\<close> before the length
  check. An iteration that passes the length check in
  constrain mode reads \<open>SS_cons\<close> and ends with \<^verbatim>\<open>std::out_of_range\<close> when it is
  missing. Nothing catches the exception: it ends the whole loop. So a family whose motif
  is assembled has \<open>AC\<close> and \<open>ID\<close> in its header and, in constrain mode, the annotation
  \<open>SS_cons\<close>; and when the loop over a batch completes, every record of the batch has
  \<open>AC\<close> and \<open>ID\<close> and, in constrain mode, every record that was not skipped has
  \<open>SS_cons\<close>.
\<close>

theorem C10_required_keys:
  "(header record ''AC'' = None \<or> header record ''ID'' = None \<longrightarrow>
      loop_body ext options record = ([], Inl OutOfRange)) \<and>
   (header record ''AC'' = Some ac \<and> header record ''ID'' = Some ident \<and>
    seqences record = first # rest \<and> seq_len_of (snd first) \<le> 1000 \<and>
    constrain options \<and> seqence_information record ''SS_cons'' = None \<longrightarrow>
      loop_body ext options record = ([PrintHeader ac ident], Inl OutOfRange)) \<and>
   (loop_body ext options record = (ev, Inr (Some rna_motif)) \<longrightarrow>
      header record ''AC'' \<noteq> None \<and> header record ''ID'' \<noteq> None \<and>
      (constrain options \<longrightarrow> seqence_information record ''SS_cons'' \<noteq> None)) \<and>
   (k < length records \<and> snd (loop_body ext options (records ! k)) = Inl OutOfRange \<longrightarrow>
      isl (main_loop ext options records)) \<and>
   (main_loop ext options records = Inr st \<and> j < length records \<longrightarrow>
      header (records ! j) ''AC'' \<noteq> None \<and> header (records ! j) ''ID'' \<noteq> None \<and>
      (constrain options \<and> snd (loop_body ext options (records ! j)) \<noteq> Inr None \<longrightarrow>
         seqence_information (records ! j) ''SS_cons'' \<noteq> None))"
proof (intro conjI impI)
  assume "header record ''AC'' = None \<or> header record ''ID'' = None"
  then show "loop_body ext options record = ([], Inl OutOfRange)"
    unfolding loop_body_eq by (auto split: option.splits)
next
  assume a: "header record ''AC'' = Some ac \<and> header record ''ID'' = Some ident \<and>
    seqences record = first # rest \<and> seq_len_of (snd first) \<le> 1000 \<and>
    constrain options \<and> seqence_information record ''SS_cons'' = None"
  then have "constraint_stage ext options record = ([], Inl OutOfRange)"
    by (simp add: constraint_stage_def map_at_def)
  then have "assemble ext options record = ([], Inl OutOfRange)"
    by (simp add: assemble_eq)
  then show "loop_body ext options record = ([PrintHeader ac ident], Inl OutOfRange)"
    using a unfolding loop_body_eq by simp
next
  assume body: "loop_body ext options record = (ev, Inr (Some rna_motif))"
  from loop_body_SomeD [OF body] obtain ev' where
    hd: "header record ''AC'' \<noteq> None" "header record ''ID'' \<noteq> None" and
    asm: "assemble ext options record = (ev', Inr rna_motif)"
    by auto
  show "header record ''AC'' \<noteq> None" by (rule hd(1))
  show "header record ''ID'' \<noteq> None" by (rule hd(2))
  assume c: "constrain options"
  from assemble_InrD [OF asm] obtain ev1 cb where
    "constraint_stage ext options record = (ev1, Inr cb)" by blast
  from constraint_stage_cases [OF this] c
  show "seqence_information record ''SS_cons'' \<noteq> None" by auto
next
  assume "k < length records \<and> snd (loop_body ext options (records ! k)) = Inl OutOfRange"
  then show "isl (main_loop ext options records)"
    by (intro main_loop_error [of k]) simp_all
next
  assume run: "main_loop ext options records = Inr st \<and> j < length records"
  then have "\<not> isl (main_loop ext options records)" by simp
  then have ok: "\<not> isl (snd (loop_body ext options (records ! j)))"
    using run main_loop_error [of j records ext options] by blast
  then obtain ev x where body: "loop_body ext options (records ! j) = (ev, Inr x)"
    by (cases "loop_body ext options (records ! j)"; cases "snd (loop_body ext options (records ! j))")
       auto
  show "header (records ! j) ''AC'' \<noteq> None"
    using body unfolding loop_body_eq by (auto split: option.splits)
  show "header (records ! j) ''ID'' \<noteq> None"
    using body unfolding loop_body_eq by (auto split: option.splits)
  assume c: "constrain options \<and> snd (loop_body ext options (records ! j)) \<noteq> Inr None"
  with body obtain rna_motif where
    some: "loop_body ext options (records ! j) = (ev, Inr (Some rna_motif))"
    by (cases x) auto
  from loop_body_SomeD [OF some] obtain ev' where
    "assemble ext options (records ! j) = (ev', Inr rna_motif)" by blast
  from assemble_InrD [OF this] obtain ev1 cb where
    "constraint_stage ext options (records ! j) = (ev1, Inr cb)" by blast
  from constraint_stage_cases [OF this] c
  show "seqence_information (records ! j) ''SS_cons'' \<noteq> None" by auto
qed

theorem C10_required_keys_witness:
  "header family_no_AC ''AC'' = None \<and>
   loop_body example_ext constrain_options family_no_AC = ([], Inl OutOfRange) \<and>
   header family_no_SS_cons ''AC'' = Some ''RF00001'' \<and>
   header family_no_SS_cons ''ID'' = Some ''familyA'' \<and>
   seqences family_no_SS_cons = (''seq1'', ''ACGU'') # [(''seq2'', ''GCGC'')] \<and>
   seq_len_of ''ACGU'' \<le> 1000 \<and> constrain constrain_options \<and>
   seqence_information family_no_SS_cons ''SS_cons'' = None \<and>
   loop_body example_ext constrain_options family_no_SS_cons
     = ([PrintHeader ''RF00001'' ''familyA''], Inl OutOfRange) \<and>
   loop_body example_ext constrain_options family_A =
     ([PrintHeader ''RF00001'' ''familyA'', Call_WUSStoPseudoBracket ''(..)'',
       Call_getConsensusStructure RNALibFold, Call_structurePartition],
      Inr (Some example_motif_A)) \<and>
   header family_A ''AC'' \<noteq> None \<and> header family_A ''ID'' \<noteq> None \<and>
   seqence_information family_A ''SS_cons'' \<noteq> None \<and>
   1 < length [family_A, family_no_SS_cons] \<and>
   isl (main_loop example_ext constrain_options [family_A, family_no_SS_cons]) \<and>
   main_loop example_ext constrain_options [family_A] =
     Inr \<lparr>motifs = [example_motif_A],
          out = [PrintHeader ''RF00001'' ''familyA'', Call_WUSStoPseudoBracket ''(..)'',
                 Call_getConsensusStructure RNALibFold, Call_structurePartition]\<rparr> \<and>
   snd (loop_body example_ext constrain_options ([family_A] ! 0)) \<noteq> Inr None \<and>
   seqence_information ([family_A] ! 0) ''SS_cons'' \<noteq> None"
proof -
  have p1: "header family_no_AC ''AC'' = None"
    by (simp add: example_defs family_no_AC_def family_no_SS_cons_def)
  have p2: "header family_no_SS_cons ''AC'' = Some ''RF00001'' \<and>
   header family_no_SS_cons ''ID'' = Some ''familyA'' \<and>
   seqences family_no_SS_cons = (''seq1'', ''ACGU'') # [(''seq2'', ''GCGC'')] \<and>
   seq_len_of (snd (''seq1'', ''ACGU'')) \<le> 1000 \<and> constrain constrain_options \<and>
   seqence_information family_no_SS_cons ''SS_cons'' = None"
    by (simp add: example_defs family_no_AC_def family_no_SS_cons_def seq_len_of_def)
  have p4: "1 < length [family_A, family_no_SS_cons] \<and>
    snd (loop_body example_ext constrain_options ([family_A, family_no_SS_cons] ! 1))
      = Inl OutOfRange"
    by (simp add: loop_body_family_no_SS_cons)
  note a = C10_required_keys [of family_no_AC example_ext constrain_options]
  note b = C10_required_keys [of family_no_SS_cons example_ext constrain_options
      "''RF00001''" "''familyA''" "(''seq1'', ''ACGU'')" "[(''seq2'', ''GCGC'')]"]
  note c = C10_required_keys [of family_A example_ext constrain_options _ _ _ _
      "[PrintHeader ''RF00001'' ''familyA'', Call_WUSStoPseudoBracket ''(..)'',
       Call_getConsensusStructure RNALibFold, Call_structurePartition]" example_motif_A
      1 "[family_A, family_no_SS_cons]"]
  have c1: "loop_body example_ext constrain_options family_no_AC = ([], Inl OutOfRange)"
    using a p1 by blast
  have c2: "loop_body example_ext constrain_options family_no_SS_cons
     = ([PrintHeader ''RF00001'' ''familyA''], Inl OutOfRange)"
    using b p2 by blast
  have c3: "header family_A ''AC'' \<noteq> None \<and> header family_A ''ID'' \<noteq> None \<and>
      seqence_information family_A ''SS_cons'' \<noteq> None"
    using c loop_body_family_A_constrain p2 by blast
  have c4: "isl (main_loop example_ext constrain_options [family_A, family_no_SS_cons])"
    using c p4 by blast
  have run: "main_loop example_ext constrain_options [family_A] =
     Inr \<lparr>motifs = [example_motif_A],
          out = [PrintHeader ''RF00001'' ''familyA'', Call_WUSStoPseudoBracket ''(..)'',
                 Call_getConsensusStructure RNALibFold, Call_structurePartition]\<rparr>"
    by (simp add: main_loop_def loop_iteration_def initial_state_def
        loop_body_family_A_constrain)
  have ns: "snd (loop_body example_ext constrain_options ([family_A] ! 0)) \<noteq> Inr None"
    by (simp add: loop_body_family_A_constrain)
  have p5: "constrain constrain_options \<and> 0 < length [family_A]"
    by (simp add: example_defs family_no_AC_def family_no_SS_cons_def)
  note d = C10_required_keys [of _ example_ext constrain_options _ _ _ _ _ _ _ "[family_A]"
      "\<lparr>motifs = [example_motif_A],
          out = [PrintHeader ''RF00001'' ''familyA'', Call_WUSStoPseudoBracket ''(..)'',
                 Call_getConsensusStructure RNALibFold, Call_structurePartition]\<rparr>" 0]
  have c5: "seqence_information ([family_A] ! 0) ''SS_cons'' \<noteq> None"
    using d run ns p5 by blast
  show ?thesis
    using p1 p2 p4 c1 c2 c3 c4 c5 run ns loop_body_family_A_constrain by simp
qed

end
